theory Spec2Isabelle
  imports Main "HOL-Library.Word"
begin

unbundle bit_operations_syntax

section \<open>Namespace types and clone flags\<close>

text \<open>
  The eight kinds of Linux namespaces. The Go code names a kind by its \<open>CLONE_NEW*\<close>
  flag (package \<open>golang.org/x/sys/unix\<close>); the flags are single bits of a
  \<open>uint64\<close>.
\<close>

datatype nstype = NS_cgroup | NS_ipc | NS_mnt | NS_net | NS_pid | NS_time | NS_user | NS_uts

definition CLONE_NEWTIME :: "64 word" where "CLONE_NEWTIME = 0x00000080"
definition CLONE_NEWNS :: "64 word" where "CLONE_NEWNS = 0x00020000"
definition CLONE_NEWCGROUP :: "64 word" where "CLONE_NEWCGROUP = 0x02000000"
definition CLONE_NEWUTS :: "64 word" where "CLONE_NEWUTS = 0x04000000"
definition CLONE_NEWIPC :: "64 word" where "CLONE_NEWIPC = 0x08000000"
definition CLONE_NEWUSER :: "64 word" where "CLONE_NEWUSER = 0x10000000"
definition CLONE_NEWPID :: "64 word" where "CLONE_NEWPID = 0x20000000"
definition CLONE_NEWNET :: "64 word" where "CLONE_NEWNET = 0x40000000"

fun flag :: "nstype \<Rightarrow> 64 word" where
  "flag NS_cgroup = CLONE_NEWCGROUP"
| "flag NS_ipc = CLONE_NEWIPC"
| "flag NS_mnt = CLONE_NEWNS"
| "flag NS_net = CLONE_NEWNET"
| "flag NS_pid = CLONE_NEWPID"
| "flag NS_time = CLONE_NEWTIME"
| "flag NS_user = CLONE_NEWUSER"
| "flag NS_uts = CLONE_NEWUTS"

text \<open>
  Modelled from the spec: \<open>spacetest.Name\<close> is not among the source files; its table
  is the one its test \<open>type names of namespaces\<close> lists (the empty name for an
  unknown type does not arise for a value of \<^typ>\<open>nstype\<close>).
\<close>

fun Name :: "nstype \<Rightarrow> string" where
  "Name NS_cgroup = ''cgroup''"
| "Name NS_ipc = ''ipc''"
| "Name NS_mnt = ''mnt''"
| "Name NS_net = ''net''"
| "Name NS_pid = ''pid''"
| "Name NS_time = ''time''"
| "Name NS_user = ''user''"
| "Name NS_uts = ''uts''"

text \<open>\<open>validSpaces\<close> of \<open>spacer/service/spacer.go\<close>: the six flat types.\<close>

definition validSpaces :: "64 word" where
  "validSpaces = CLONE_NEWCGROUP OR CLONE_NEWIPC OR CLONE_NEWNS OR CLONE_NEWNET
     OR CLONE_NEWTIME OR CLONE_NEWUTS"

section \<open>The kernel as seen by the code\<close>

text \<open>
  The code talks to the kernel through system calls on file descriptors. The model keeps
  what the calls read and write: the descriptor table of the process, the namespaces a
  thread is attached to, the child processes, and a log of every call made. A call fails
  when the environment says so: \<open>faults\<close> maps the running number of a call (its
  position in the log) to the error text the call returns.
\<close>

datatype fobj = NsHandle nstype nat | SocketEnd nat | PlainFile

datatype syscall =
    Sys_open_thread_ns nstype
  | Sys_open_proc_ns nat nstype
  | Sys_close int
  | Sys_setns int
  | Sys_unshare nstype
  | Sys_unshare_fs
  | Sys_mount_private
  | Sys_socketpair
  | Sys_dup int
  | Sys_ioctl_nstype int
  | Sys_clone_exec "64 word"
  | Sys_sendmsg "int list"
  | Sys_recvmsg nat

record kernel =
  fdtab :: "fobj option list"
  next_ns :: nat
  procs :: "(nat \<times> (nstype \<Rightarrow> nat)) list"
  next_pid :: nat
  faults :: "(nat \<times> string) list"
  trace :: "syscall list"

text \<open>
  A kernel thread: the namespace it is attached to, per type, and how often a goroutine
  has locked itself to it (\<open>runtime.LockOSThread\<close> nests).
\<close>

record thread =
  attached :: "nstype \<Rightarrow> nat"
  locked :: nat

definition LockOSThread :: "thread \<Rightarrow> thread" where
  "LockOSThread thr = thr\<lparr>locked := Suc (locked thr)\<rparr>"


subsection \<open>Descriptor table\<close>

text \<open>A new descriptor is the lowest number not in use, as POSIX has it.\<close>

fun free_slot :: "fobj option list \<Rightarrow> nat" where
  "free_slot [] = 0"
| "free_slot (None # tab) = 0"
| "free_slot (Some obj # tab) = Suc (free_slot tab)"

definition slot :: "fobj option list \<Rightarrow> nat \<Rightarrow> fobj option" where
  "slot tab i = (if i < length tab then tab ! i else None)"

definition install :: "fobj \<Rightarrow> fobj option list \<Rightarrow> fobj option list" where
  "install obj tab =
     (if free_slot tab < length tab then tab[free_slot tab := Some obj] else tab @ [Some obj])"

definition release :: "nat \<Rightarrow> fobj option list \<Rightarrow> fobj option list" where
  "release i tab = (if i < length tab then tab[i := None] else tab)"

definition fd_lookup :: "kernel \<Rightarrow> int \<Rightarrow> fobj option" where
  "fd_lookup k fd = (if fd < 0 then None else slot (fdtab k) (nat fd))"

subsection \<open>System calls\<close>

definition fault :: "kernel \<Rightarrow> string option" where
  "fault k = map_of (faults k) (length (trace k))"

definition log_call :: "syscall \<Rightarrow> kernel \<Rightarrow> kernel" where
  "log_call c k = k\<lparr>trace := trace k @ [c]\<rparr>"

text \<open>Opening a file: the call \<open>c\<close> yields a new descriptor for \<open>obj\<close>, or fails.\<close>

definition sys_open :: "syscall \<Rightarrow> fobj \<Rightarrow> kernel \<Rightarrow> (string + int) \<times> kernel" where
  "sys_open c obj k =
     (case fault k of
        Some e \<Rightarrow> (Inl e, log_call c k)
      | None \<Rightarrow> (Inr (int (free_slot (fdtab k))), (log_call c k)\<lparr>fdtab := install obj (fdtab k)\<rparr>))"

text \<open>\<open>unix.Open("/proc/thread-self/ns/" + name, O_RDONLY, 0)\<close>\<close>

definition open_thread_ns :: "nstype \<Rightarrow> thread \<Rightarrow> kernel \<Rightarrow> (string + int) \<times> kernel" where
  "open_thread_ns t thr k = sys_open (Sys_open_thread_ns t) (NsHandle t (attached thr t)) k"

text \<open>\<open>unix.Open(fmt.Sprintf("/proc/%d/ns/<name>", pid), O_RDONLY, 0)\<close>\<close>

definition open_proc_ns :: "nat \<Rightarrow> nstype \<Rightarrow> kernel \<Rightarrow> (string + int) \<times> kernel" where
  "open_proc_ns pid t k =
     (case map_of (procs k) pid of
        None \<Rightarrow> (Inl ''no such file or directory'', log_call (Sys_open_proc_ns pid t) k)
      | Some ns \<Rightarrow> sys_open (Sys_open_proc_ns pid t) (NsHandle t (ns t)) k)"

text \<open>
  \<open>unix.Close\<close>. Every call site discards its result (\<open>_ = unix.Close(fd)\<close>), so the
  model returns the kernel only. Closing a number that is not an open descriptor changes
  nothing but the log.
\<close>

definition sys_close :: "int \<Rightarrow> kernel \<Rightarrow> kernel" where
  "sys_close fd k =
     (if fd < 0 then log_call (Sys_close fd) k
      else (log_call (Sys_close fd) k)\<lparr>fdtab := release (nat fd) (fdtab k)\<rparr>)"

text \<open>\<open>unix.Dup\<close>\<close>

definition sys_dup :: "int \<Rightarrow> kernel \<Rightarrow> (string + int) \<times> kernel" where
  "sys_dup fd k =
     (case fd_lookup k fd of
        None \<Rightarrow> (Inl ''bad file descriptor'', log_call (Sys_dup fd) k)
      | Some obj \<Rightarrow> sys_open (Sys_dup fd) obj k)"

text \<open>
  \<open>unix.Setns(fd, nstype)\<close>: with \<open>nstype = 0\<close> (\<open>None\<close> here) any type of namespace
  is accepted, otherwise the descriptor must reference a namespace of that type.
\<close>

definition sys_setns :: "int \<Rightarrow> nstype option \<Rightarrow> thread \<Rightarrow> kernel \<Rightarrow> string option \<times> thread \<times> kernel" where
  "sys_setns fd want thr k =
     (case fault k of
        Some e \<Rightarrow> (Some e, thr, log_call (Sys_setns fd) k)
      | None \<Rightarrow>
          (case fd_lookup k fd of
             Some (NsHandle t n) \<Rightarrow>
               (if want = None \<or> want = Some t
                then (None, thr\<lparr>attached := (attached thr)(t := n)\<rparr>, log_call (Sys_setns fd) k)
                else (Some ''invalid argument'', thr, log_call (Sys_setns fd) k))
           | Some _ \<Rightarrow> (Some ''invalid argument'', thr, log_call (Sys_setns fd) k)
           | None \<Rightarrow> (Some ''bad file descriptor'', thr, log_call (Sys_setns fd) k)))"

text \<open>
  \<open>unix.Unshare(typ)\<close>: the kernel makes a new namespace of the type and moves the
  thread into it. A new time namespace is the exception: it becomes the namespace of the
  children that the caller creates from then on, and the caller stays where it is.
\<close>

definition sys_unshare :: "nstype \<Rightarrow> thread \<Rightarrow> kernel \<Rightarrow> string option \<times> thread \<times> kernel" where
  "sys_unshare t thr k =
     (case fault k of
        Some e \<Rightarrow> (Some e, thr, log_call (Sys_unshare t) k)
      | None \<Rightarrow>
          (None,
           (if t = NS_time then thr else thr\<lparr>attached := (attached thr)(t := next_ns k)\<rparr>),
           (log_call (Sys_unshare t) k)\<lparr>next_ns := Suc (next_ns k)\<rparr>))"

text \<open>\<open>unix.Unshare(unix.CLONE_FS)\<close>\<close>

definition sys_unshare_fs :: "kernel \<Rightarrow> string option \<times> kernel" where
  "sys_unshare_fs k = (fault k, log_call Sys_unshare_fs k)"

text \<open>\<open>unix.Mount("none", "/", "/", MS_REC|MS_PRIVATE, "")\<close>\<close>

definition sys_mount_private :: "kernel \<Rightarrow> string option \<times> kernel" where
  "sys_mount_private k = (fault k, log_call Sys_mount_private k)"

text \<open>
  \<open>unix.IoctlRetInt(fd, NS_GET_NSTYPE)\<close>: the type of the namespace a descriptor
  references; an error for anything else.
\<close>

definition sys_ioctl_nstype :: "int \<Rightarrow> kernel \<Rightarrow> (string + nstype) \<times> kernel" where
  "sys_ioctl_nstype fd k =
     (case fd_lookup k fd of
        Some (NsHandle t n) \<Rightarrow> (Inr t, log_call (Sys_ioctl_nstype fd) k)
      | Some _ \<Rightarrow> (Inl ''inappropriate ioctl for device'', log_call (Sys_ioctl_nstype fd) k)
      | None \<Rightarrow> (Inl ''bad file descriptor'', log_call (Sys_ioctl_nstype fd) k))"

section \<open>Protocol messages (package api)\<close>

record SubspaceRequest =
  Spaces :: "64 word"

record RoomsRequest =
  Spaces :: "64 word"

record SubspaceResponse =
  Conn :: int
  User :: int
  PID :: int

record RoomsResponse =
  Cgroup :: int
  IPC :: int
  Mnt :: int
  Net :: int
  Time :: int
  UTS :: int

datatype Response =
    ErrorResponse string
  | SubspaceResp SubspaceResponse
  | RoomsResp RoomsResponse

section \<open>Creating flat namespaces (Spacemaker.Room)\<close>

text \<open>
  \<open>newNamespace\<close>: lock the thread (never unlocked), open the current namespace, unshare,
  open the new one. The deferred function switches the thread back and closes the handle of
  the original namespace on every path once that handle is open. The Go function returns
  \<open>(0, err)\<close> or \<open>(newns, nil)\<close>, here \<open>Inl err\<close> or \<open>Inr newns\<close>. \<open>Room\<close> calls it with
  the six flat flags only, so the argument is a \<^typ>\<open>nstype\<close>.
  For the time namespace the second open yields a handle of the namespace that the thread
  has been in all along, since \<open>Unshare\<close> does not move the caller then.
\<close>

definition newNamespace_create :: "nstype \<Rightarrow> thread \<Rightarrow> kernel \<Rightarrow> (string + int) \<times> thread \<times> kernel" where
  "newNamespace_create typ thr k =
     (case (if typ = NS_mnt then sys_unshare_fs k else (None, k)) of
        (Some err, k1) \<Rightarrow> (Inl err, thr, k1)
      | (None, k1) \<Rightarrow>
          (case sys_unshare typ thr k1 of
             (Some err, thr2, k2) \<Rightarrow> (Inl err, thr2, k2)
           | (None, thr2, k2) \<Rightarrow>
               (case (if typ = NS_mnt then sys_mount_private k2 else (None, k2)) of
                  (Some err, k3) \<Rightarrow> (Inl err, thr2, k3)
                | (None, k3) \<Rightarrow>
                    (case open_thread_ns typ thr2 k3 of
                       (Inl err, k4) \<Rightarrow> (Inl err, thr2, k4)
                     | (Inr newns, k4) \<Rightarrow> (Inr newns, thr2, k4)))))"

definition newNamespace :: "nstype \<Rightarrow> thread \<Rightarrow> kernel \<Rightarrow> (string + int) \<times> thread \<times> kernel" where
  "newNamespace typ thr k =
     (let thr0 = LockOSThread thr in
      case open_thread_ns typ thr0 k of
        (Inl err, k1) \<Rightarrow> (Inl err, thr0, k1)
      | (Inr callerns, k1) \<Rightarrow>
          (case newNamespace_create typ thr0 k1 of
             (res, thr2, k2) \<Rightarrow>
               (case sys_setns callerns None thr2 k2 of
                  (_, thr3, k3) \<Rightarrow> (res, thr3, sys_close callerns k3))))"

text \<open>
  The closure \<open>unshare\<close> of \<open>Room\<close>. It starts a goroutine that runs \<open>newNamespace\<close> and
  at once waits for its result on an unbuffered channel, so the call returns when the
  goroutine has sent its result. The goroutine's thread \<open>worker\<close> is thrown away. The
  closure's captured variables are the response and \<open>errmsg\<close>; \<open>upd\<close> stands for the
  pointer to the response field.
\<close>

definition unshare ::
  "RoomsRequest \<Rightarrow> thread \<Rightarrow> nstype \<Rightarrow> (int \<Rightarrow> RoomsResponse \<Rightarrow> RoomsResponse) \<Rightarrow>
     RoomsResponse \<times> string \<times> kernel \<Rightarrow> RoomsResponse \<times> string \<times> kernel" where
  "unshare req worker typ upd st =
     (case st of (resp, errmsg, k) \<Rightarrow>
        if RoomsRequest.Spaces req AND flag typ = 0 then (resp, errmsg, k)
        else
          (case newNamespace typ worker k of
             (Inl err, _, k1) \<Rightarrow>
               (resp, (if errmsg \<noteq> '''' then errmsg @ '','' else errmsg) @ Name typ @ '':'' @ err, k1)
           | (Inr fd, _, k1) \<Rightarrow> (upd fd resp, errmsg, k1)))"

definition close_if_open :: "int \<Rightarrow> kernel \<Rightarrow> kernel" where
  "close_if_open fd k = (if fd > 0 then sys_close fd k else k)"

definition Room :: "thread \<Rightarrow> kernel \<Rightarrow> RoomsRequest \<Rightarrow> Response \<times> kernel" where
  "Room worker k req =
     (if RoomsRequest.Spaces req AND NOT validSpaces \<noteq> 0 then (ErrorResponse ''out of space'', k)
      else if RoomsRequest.Spaces req AND validSpaces = 0 then (ErrorResponse ''no space requested'', k)
      else
        let st0 = (\<lparr>Cgroup = 0, IPC = 0, Mnt = 0, Net = 0, Time = 0, UTS = 0\<rparr>, '''', k);
            st1 = unshare req worker NS_cgroup (\<lambda>fd r. r\<lparr>Cgroup := fd\<rparr>) st0;
            st2 = unshare req worker NS_ipc (\<lambda>fd r. r\<lparr>IPC := fd\<rparr>) st1;
            st3 = unshare req worker NS_mnt (\<lambda>fd r. r\<lparr>Mnt := fd\<rparr>) st2;
            st4 = unshare req worker NS_net (\<lambda>fd r. r\<lparr>Net := fd\<rparr>) st3;
            st5 = unshare req worker NS_time (\<lambda>fd r. r\<lparr>Time := fd\<rparr>) st4;
            st6 = unshare req worker NS_uts (\<lambda>fd r. r\<lparr>UTS := fd\<rparr>) st5
        in case st6 of (resp, errmsg, k') \<Rightarrow>
          if errmsg \<noteq> '''' then
            (ErrorResponse errmsg,
             close_if_open (UTS resp) (close_if_open (Time resp) (close_if_open (Net resp)
               (close_if_open (Mnt resp) (close_if_open (IPC resp) (close_if_open (Cgroup resp) k'))))))
          else (RoomsResp resp, k'))"

subsection \<open>The units of work of a Room request\<close>

text \<open>
  The flat types in the order in which \<open>Room\<close> calls \<open>unshare\<close>, and the ones a
  request selects.
\<close>

definition flat_types :: "nstype list" where
  "flat_types = [NS_cgroup, NS_ipc, NS_mnt, NS_net, NS_time, NS_uts]"

definition requested :: "RoomsRequest \<Rightarrow> nstype \<Rightarrow> bool" where
  "requested req t \<longleftrightarrow> RoomsRequest.Spaces req AND flag t \<noteq> 0"

definition valid_RoomsRequest :: "RoomsRequest \<Rightarrow> bool" where
  "valid_RoomsRequest req \<longleftrightarrow>
     RoomsRequest.Spaces req \<noteq> 0 \<and> RoomsRequest.Spaces req AND NOT validSpaces = 0"

text \<open>
  The calls of \<open>newNamespace\<close> that a run makes for the types \<open>ts\<close>, each from the kernel
  state its predecessor left, with the result of each: the units of work and their outcomes.
\<close>

fun run_units :: "thread \<Rightarrow> nstype list \<Rightarrow> kernel \<Rightarrow> (nstype \<times> (string + int)) list \<times> kernel" where
  "run_units worker [] k = ([], k)"
| "run_units worker (t # ts) k =
     (case newNamespace t worker k of
        (res, _, k1) \<Rightarrow> (case run_units worker ts k1 of (rs, k2) \<Rightarrow> ((t, res) # rs, k2)))"

fun failures :: "(nstype \<times> (string + int)) list \<Rightarrow> string list" where
  "failures [] = []"
| "failures ((t, Inl err) # rs) = (Name t @ '':'' @ err) # failures rs"
| "failures ((t, Inr fd) # rs) = failures rs"

fun successes :: "(nstype \<times> (string + int)) list \<Rightarrow> (nstype \<times> int) list" where
  "successes [] = []"
| "successes ((t, Inl err) # rs) = successes rs"
| "successes ((t, Inr fd) # rs) = (t, fd) # successes rs"

fun join_comma :: "string list \<Rightarrow> string" where
  "join_comma [] = []"
| "join_comma [x] = x"
| "join_comma (x # y # ys) = x @ '','' @ join_comma (y # ys)"

text \<open>The field of a \<open>RoomsResponse\<close> that belongs to a flat type.\<close>

fun room_fd :: "nstype \<Rightarrow> RoomsResponse \<Rightarrow> int" where
  "room_fd NS_cgroup r = Cgroup r"
| "room_fd NS_ipc r = IPC r"
| "room_fd NS_mnt r = Mnt r"
| "room_fd NS_net r = Net r"
| "room_fd NS_time r = Time r"
| "room_fd NS_uts r = UTS r"
| "room_fd NS_pid r = 0"
| "room_fd NS_user r = 0"

fun room_upd :: "nstype \<Rightarrow> int \<Rightarrow> RoomsResponse \<Rightarrow> RoomsResponse" where
  "room_upd NS_cgroup fd r = r\<lparr>Cgroup := fd\<rparr>"
| "room_upd NS_ipc fd r = r\<lparr>IPC := fd\<rparr>"
| "room_upd NS_mnt fd r = r\<lparr>Mnt := fd\<rparr>"
| "room_upd NS_net fd r = r\<lparr>Net := fd\<rparr>"
| "room_upd NS_time fd r = r\<lparr>Time := fd\<rparr>"
| "room_upd NS_uts fd r = r\<lparr>UTS := fd\<rparr>"
| "room_upd NS_pid fd r = r"
| "room_upd NS_user fd r = r"

text \<open>What one unit's outcome does to the response and to \<open>errmsg\<close> in \<open>unshare\<close>.\<close>

definition apply_unit :: "nstype \<times> (string + int) \<Rightarrow> RoomsResponse \<times> string \<Rightarrow> RoomsResponse \<times> string" where
  "apply_unit u st =
     (case (u, st) of
        ((t, Inl err), (resp, errmsg)) \<Rightarrow>
          (resp, (if errmsg \<noteq> '''' then errmsg @ '','' else errmsg) @ Name t @ '':'' @ err)
      | ((t, Inr fd), (resp, errmsg)) \<Rightarrow> (room_upd t fd resp, errmsg))"

subsection \<open>Auxiliary notions for the proofs\<close>

text \<open>Looking a descriptor up in a table.\<close>

definition tab_lookup :: "fobj option list \<Rightarrow> int \<Rightarrow> fobj option" where
  "tab_lookup tab fd = (if fd < 0 then None else slot tab (nat fd))"

text \<open>The closes of the failure path of \<open>Room\<close>.\<close>

definition close_fields :: "RoomsResponse \<Rightarrow> kernel \<Rightarrow> kernel" where
  "close_fields resp k =
     close_if_open (UTS resp) (close_if_open (Time resp) (close_if_open (Net resp)
       (close_if_open (Mnt resp) (close_if_open (IPC resp) (close_if_open (Cgroup resp) k)))))"


text \<open>
  What a sequence of units leaves behind: every handle obtained is positive, was free before,
  references a namespace of its type, no handle is obtained twice, and nothing else in the
  descriptor table has changed.
\<close>

definition units_ok :: "kernel \<Rightarrow> (nstype \<times> (string + int)) list \<Rightarrow> kernel \<Rightarrow> bool" where
  "units_ok k rs k' \<longleftrightarrow>
     (\<forall>(t, fd) \<in> set (successes rs). 0 < fd \<and> fd_lookup k fd = None \<and> (\<exists>n. fd_lookup k' fd = Some (NsHandle t n)))
     \<and> distinct (map snd (successes rs))
     \<and> (\<forall>x. x \<notin> snd ` set (successes rs) \<longrightarrow> fd_lookup k' x = fd_lookup k x)"

section \<open>Creating hierarchical namespaces (Spacemaker.Subspace)\<close>

text \<open>
  A function of the Go code returns, or it panics: a value of \<open>'a result\<close>. A failed Gomega
  expectation under Ginkgo ends the running function the same way, with the description of
  the expectation as its message.
\<close>

datatype 'a result = Return 'a | Panic string

subsection \<open>Socket pairs and child processes\<close>

text \<open>\<open>unix.Socketpair(AF_UNIX, SOCK_STREAM, 0)\<close>: two connected sockets.\<close>

definition sys_socketpair :: "kernel \<Rightarrow> (string + int \<times> int) \<times> kernel" where
  "sys_socketpair k =
     (case fault k of
        Some e \<Rightarrow> (Inl e, log_call Sys_socketpair k)
      | None \<Rightarrow>
          (let tab1 = install (SocketEnd 0) (fdtab k);
               tab2 = install (SocketEnd 1) tab1
           in (Inr (int (free_slot (fdtab k)), int (free_slot tab1)),
               (log_call Sys_socketpair k)\<lparr>fdtab := tab2\<rparr>)))"

text \<open>
  \<open>exec.Cmd.Start\<close> with \<open>Cloneflags\<close>, and with \<open>UidMappings\<close> and \<open>GidMappings\<close>
  when \<open>idmaps\<close> holds: a child process whose user and PID namespaces are new where the
  flags ask for it, and the caller's otherwise. Starting a process is the work of Go's
  packages os/exec and syscall, whose source is not part of this repository. When id
  mappings are given, the child waits, before it executes the program, until the parent
  has written the mappings and says so through a pipe. Unless \<open>CLONE_NEWUSER\<close> is among
  the flags the child is made with \<open>CLONE_VFORK\<close>, which suspends the parent until the
  child executes the program. With id mappings and without \<open>CLONE_NEWUSER\<close> each
  waits for the other, and the call never returns: the result \<open>None\<close>.
\<close>

definition sys_clone_exec ::
  "64 word \<Rightarrow> bool \<Rightarrow> thread \<Rightarrow> kernel \<Rightarrow> (string + nat) option \<times> kernel" where
  "sys_clone_exec flags idmaps thr k =
     (case fault k of
        Some e \<Rightarrow> (Some (Inl e), log_call (Sys_clone_exec flags) k)
      | None \<Rightarrow>
          (let user_new = (flags AND CLONE_NEWUSER \<noteq> 0);
               pid_new = (flags AND CLONE_NEWPID \<noteq> 0);
               ns1 = (if user_new then (attached thr)(NS_user := next_ns k) else attached thr);
               n1 = (if user_new then Suc (next_ns k) else next_ns k);
               ns2 = (if pid_new then ns1(NS_pid := n1) else ns1);
               n2 = (if pid_new then Suc n1 else n1)
           in ((if idmaps \<and> \<not> user_new then None else Some (Inr (next_pid k))),
               (log_call (Sys_clone_exec flags) k)
                 \<lparr>next_ns := n2, procs := (next_pid k, ns2) # procs k, next_pid := Suc (next_pid k)\<rparr>)))"

subsection \<open>Package uds\<close>

text \<open>
  A \<open>*uds.Conn\<close> and an \<open>*os.File\<close> are known by the descriptor they own.
  \<open>NewUnixConn\<close> wraps a descriptor: \<open>net.FilePacketConn\<close> duplicates it, the deferred
  \<open>f.Close()\<close> closes the one passed in, on every path.
\<close>

type_synonym Conn = int

definition NewUnixConn :: "int \<Rightarrow> kernel \<Rightarrow> (string + Conn) \<times> kernel" where
  "NewUnixConn udsfd k =
     (if udsfd < 0 then (Inl ''not a file descriptor'', k)
      else
        (case sys_dup udsfd k of
           (Inl err, k1) \<Rightarrow> (Inl err, sys_close udsfd k1)
         | (Inr fd, k1) \<Rightarrow>
             (case fd_lookup k1 fd of
                Some (SocketEnd e) \<Rightarrow> (Inr fd, sys_close udsfd k1)
              | _ \<Rightarrow> (Inl ''not a unix domain socket'', sys_close udsfd (sys_close fd k1)))))"

definition NewPair :: "kernel \<Rightarrow> (string + Conn \<times> Conn) \<times> kernel" where
  "NewPair k =
     (case sys_socketpair k of
        (Inl err, k1) \<Rightarrow> (Inl err, k1)
      | (Inr (fd0, fd1), k1) \<Rightarrow>
          (case NewUnixConn fd0 k1 of
             (Inl err, k2) \<Rightarrow> (Inl err, sys_close fd1 k2)
           | (Inr dupond, k2) \<Rightarrow>
               (case NewUnixConn fd1 k2 of
                  (Inl err, k3) \<Rightarrow> (Inl err, sys_close dupond k3)
                | (Inr dupont, k3) \<Rightarrow> (Inr (dupond, dupont), k3))))"

text \<open>\<open>Conn.Close\<close>, \<open>Conn.File\<close> (a duplicate with a life of its own), \<open>File.Close\<close>.\<close>

definition Conn_Close :: "Conn \<Rightarrow> kernel \<Rightarrow> kernel" where
  "Conn_Close c k = sys_close c k"

definition Conn_File :: "Conn \<Rightarrow> kernel \<Rightarrow> (string + int) \<times> kernel" where
  "Conn_File c k = sys_dup c k"

definition File_Close :: "int \<Rightarrow> kernel \<Rightarrow> kernel" where
  "File_Close f k = sys_close f k"

subsection \<open>Subspace\<close>

text \<open>
  The end of \<open>Subspace\<close>, from \<open>var userfd, pidfd int\<close> on: both start as 0, and each
  is opened only if its type was requested.
\<close>

definition Subspace_handles :: "SubspaceRequest \<Rightarrow> nat \<Rightarrow> int \<Rightarrow> kernel \<Rightarrow> Response \<times> kernel" where
  "Subspace_handles req pid connfd k =
     (case (if SubspaceRequest.Spaces req AND CLONE_NEWUSER \<noteq> 0
            then open_proc_ns pid NS_user k else (Inr 0, k)) of
        (Inl err, k1) \<Rightarrow>
          (ErrorResponse (''failed to determine new user namespace, reason: '' @ err),
           sys_close connfd k1)
      | (Inr userfd, k1) \<Rightarrow>
          (case (if SubspaceRequest.Spaces req AND CLONE_NEWPID \<noteq> 0
                 then open_proc_ns pid NS_pid k1 else (Inr 0, k1)) of
             (Inl err, k2) \<Rightarrow>
               (ErrorResponse (''failed to determine new PID namespace, reason: '' @ err),
                sys_close connfd (sys_close userfd k2))
           | (Inr pidfd, k2) \<Rightarrow>
               (SubspaceResp \<lparr>Conn = connfd, User = userfd, PID = pidfd\<rparr>, k2)))"

text \<open>
  From the start of the child process to the return; the deferred \<open>dupondf.Close()\<close>
  runs on every path after \<open>dupond.File()\<close> has succeeded. \<open>Subspace\<close> sets the id
  mappings on every request. When starting the child does not return, neither does
  \<open>Subspace\<close>, and nothing that is deferred runs: the outcome \<open>None\<close>, with the kernel
  as it is then.
\<close>

definition Subspace_child ::
  "thread \<Rightarrow> SubspaceRequest \<Rightarrow> Conn \<Rightarrow> kernel \<Rightarrow> Response option \<times> kernel" where
  "Subspace_child thr req dupond k =
     (case sys_clone_exec (SubspaceRequest.Spaces req AND (CLONE_NEWUSER OR CLONE_NEWPID)) True thr k of
        (None, k1) \<Rightarrow> (None, k1)
      | (Some (Inl err), k1) \<Rightarrow>
          (Some (ErrorResponse (''failed to start sub service, reason: '' @ err)), k1)
      | (Some (Inr pid), k1) \<Rightarrow>
          (case Conn_File dupond k1 of
             (Inl err, k2) \<Rightarrow>
               (Some (ErrorResponse (''failed to fetch client *os.File, reason: '' @ err)), k2)
           | (Inr dupondf, k2) \<Rightarrow>
               (case (case sys_dup dupondf k2 of
                        (Inl err, k3) \<Rightarrow>
                          (ErrorResponse (''failed to fetch client fd, reason: '' @ err), k3)
                      | (Inr connfd, k3) \<Rightarrow> Subspace_handles req pid connfd k3) of
                  (resp, k4) \<Rightarrow> (Some resp, File_Close dupondf k4))))"

text \<open>
  \<open>Subspace\<close>. The deferred function that closes both connections is registered before
  the error of \<open>uds.NewPair\<close> is looked at; when \<open>NewPair\<close> has failed both are
  \<open>nil\<close>, and \<open>dupond.Close()\<close> dereferences a nil pointer.
\<close>

definition Subspace :: "thread \<Rightarrow> kernel \<Rightarrow> SubspaceRequest \<Rightarrow> Response result option \<times> kernel" where
  "Subspace thr k req =
     (if SubspaceRequest.Spaces req AND NOT (CLONE_NEWUSER OR CLONE_NEWPID) \<noteq> 0
      then (Some (Return (ErrorResponse ''out of space'')), k)
      else if SubspaceRequest.Spaces req AND (CLONE_NEWUSER OR CLONE_NEWPID) = 0
      then (Some (Return (ErrorResponse ''no space requested'')), k)
      else
        (case NewPair k of
           (Inl err, k1) \<Rightarrow> (Some (Panic ''runtime error: invalid memory address or nil pointer dereference''), k1)
         | (Inr (dupond, dupont), k1) \<Rightarrow>
             (case Conn_File dupont k1 of
                (Inl err, k2) \<Rightarrow>
                  (Some (Return (ErrorResponse (''failed to fetch service *os.File, reason: '' @ err))),
                   Conn_Close dupont (Conn_Close dupond k2))
              | (Inr dupontf, k2) \<Rightarrow>
                  (case Subspace_child thr req dupond k2 of
                     (None, k3) \<Rightarrow> (None, k3)
                   | (Some resp, k3) \<Rightarrow>
                       (Some (Return resp),
                        Conn_Close dupont (Conn_Close dupond (File_Close dupontf k3)))))))"

section \<open>Handles out of band (package api)\<close>

text \<open>
  \<open>borrow\<close>: an open descriptor (\<open>> 0\<close>) moves from its field into the list, and the
  field becomes zero. The model returns the list and the new value of the field.
\<close>

definition borrow :: "int list \<Rightarrow> int \<Rightarrow> int list \<times> int" where
  "borrow f fd = (if fd \<le> 0 then (f, fd) else (f @ [fd], 0))"

definition RoomsResponse_EncodeFds :: "RoomsResponse \<Rightarrow> int list \<times> RoomsResponse" where
  "RoomsResponse_EncodeFds s =
     (case borrow [] (Cgroup s) of (f1, v1) \<Rightarrow>
      case borrow f1 (IPC s) of (f2, v2) \<Rightarrow>
      case borrow f2 (Mnt s) of (f3, v3) \<Rightarrow>
      case borrow f3 (Net s) of (f4, v4) \<Rightarrow>
      case borrow f4 (Time s) of (f5, v5) \<Rightarrow>
      case borrow f5 (UTS s) of (f6, v6) \<Rightarrow>
        (f6, \<lparr>Cgroup = v1, IPC = v2, Mnt = v3, Net = v4, Time = v5, UTS = v6\<rparr>))"

definition SubspaceResponse_EncodeFds :: "SubspaceResponse \<Rightarrow> int list \<times> SubspaceResponse" where
  "SubspaceResponse_EncodeFds s =
     (case borrow [] (Conn s) of (f1, v1) \<Rightarrow>
      case borrow f1 (User s) of (f2, v2) \<Rightarrow>
      case borrow f2 (PID s) of (f3, v3) \<Rightarrow>
        (f3, \<lparr>Conn = v1, User = v2, PID = v3\<rparr>))"

text \<open>
  \<open>RoomsResponse.DecodeFds\<close>: the type of each received descriptor is asked of the kernel
  (the error of \<open>IoctlRetInt\<close> is dropped, and its value then matches no case); a
  descriptor of a flat type goes to the field of the type, any other is closed.
\<close>

fun RoomsResponse_DecodeFds :: "int list \<Rightarrow> RoomsResponse \<Rightarrow> kernel \<Rightarrow> RoomsResponse \<times> kernel" where
  "RoomsResponse_DecodeFds [] s k = (s, k)"
| "RoomsResponse_DecodeFds (fd # fds) s k =
     (case sys_ioctl_nstype fd k of
        (Inr NS_cgroup, k1) \<Rightarrow> RoomsResponse_DecodeFds fds (s\<lparr>Cgroup := fd\<rparr>) k1
      | (Inr NS_ipc, k1) \<Rightarrow> RoomsResponse_DecodeFds fds (s\<lparr>IPC := fd\<rparr>) k1
      | (Inr NS_mnt, k1) \<Rightarrow> RoomsResponse_DecodeFds fds (s\<lparr>Mnt := fd\<rparr>) k1
      | (Inr NS_net, k1) \<Rightarrow> RoomsResponse_DecodeFds fds (s\<lparr>Net := fd\<rparr>) k1
      | (Inr NS_time, k1) \<Rightarrow> RoomsResponse_DecodeFds fds (s\<lparr>Time := fd\<rparr>) k1
      | (Inr NS_uts, k1) \<Rightarrow> RoomsResponse_DecodeFds fds (s\<lparr>UTS := fd\<rparr>) k1
      | (_, k1) \<Rightarrow> RoomsResponse_DecodeFds fds s (sys_close fd k1))"

text \<open>
  \<open>SubspaceResponse.DecodeFds\<close>: \<open>s.Conn = fds[0]\<close> comes first and is not guarded, so
  an empty list is an index out of range; the loop runs over \<open>fds[1:]\<close>.
\<close>

fun SubspaceResponse_DecodeFds_rest ::
  "int list \<Rightarrow> SubspaceResponse \<Rightarrow> kernel \<Rightarrow> SubspaceResponse \<times> kernel" where
  "SubspaceResponse_DecodeFds_rest [] s k = (s, k)"
| "SubspaceResponse_DecodeFds_rest (fd # fds) s k =
     (case sys_ioctl_nstype fd k of
        (Inr NS_user, k1) \<Rightarrow> SubspaceResponse_DecodeFds_rest fds (s\<lparr>User := fd\<rparr>) k1
      | (Inr NS_pid, k1) \<Rightarrow> SubspaceResponse_DecodeFds_rest fds (s\<lparr>PID := fd\<rparr>) k1
      | (_, k1) \<Rightarrow> SubspaceResponse_DecodeFds_rest fds s (sys_close fd k1))"

definition SubspaceResponse_DecodeFds ::
  "int list \<Rightarrow> SubspaceResponse \<Rightarrow> kernel \<Rightarrow> (SubspaceResponse \<times> kernel) result" where
  "SubspaceResponse_DecodeFds fds s k =
     (case fds of
        [] \<Rightarrow> Panic ''runtime error: index out of range [0] with length 0''
      | fd # rest \<Rightarrow> Return (SubspaceResponse_DecodeFds_rest rest (s\<lparr>Conn := fd\<rparr>) k))"

section \<open>Sending a response (service.Serve) and receiving it (Client.do)\<close>

text \<open>
  The end of one round of \<open>Serve\<close>, from the response on: the response is encoded first,
  then \<open>EncodeFds\<close> takes the descriptors out of it, the message and the descriptors are
  sent, and the descriptors are closed. The gob codec is not code of this repository: the
  encoder is the parameter \<open>encode\<close>, which yields \<open>None\<close> when it reports an error.
  The result is what goes over the connection, if anything.
\<close>

definition EncodeFds :: "Response \<Rightarrow> int list \<times> Response" where
  "EncodeFds resp =
     (case resp of
        ErrorResponse reason \<Rightarrow> ([], resp)
      | SubspaceResp s \<Rightarrow> (case SubspaceResponse_EncodeFds s of (fds, s') \<Rightarrow> (fds, SubspaceResp s'))
      | RoomsResp s \<Rightarrow> (case RoomsResponse_EncodeFds s of (fds, s') \<Rightarrow> (fds, RoomsResp s')))"

definition Serve_respond ::
  "(Response \<Rightarrow> 'msg option) \<Rightarrow> Response \<Rightarrow> kernel \<Rightarrow> ('msg \<times> int list) option \<times> kernel" where
  "Serve_respond encode resp k =
     (case encode resp of
        None \<Rightarrow> (None, k)
      | Some msg \<Rightarrow>
          (case EncodeFds resp of
             (fds, resp') \<Rightarrow> (Some (msg, fds), foldl (\<lambda>k fd. sys_close fd k) k fds)))"

subsection \<open>Descriptors as ancillary data (package uds)\<close>

text \<open>
  The sizes of control messages. \<open>unix.CmsgSpace\<close> and the constants it uses belong to
  the package golang.org/x/sys/unix, whose source is not part of this repository; they are
  written here as that package has them for Linux. The header of a
  control message is a length of the size of a pointer and two integers of 32 bits, and
  lengths are rounded up to a multiple of the size of a pointer, which is 4 or 8 bytes.
\<close>

datatype arch = Arch32 | Arch64

definition SizeofPtr :: "arch \<Rightarrow> nat" where
  "SizeofPtr a = (case a of Arch32 \<Rightarrow> 4 | Arch64 \<Rightarrow> 8)"

definition SizeofCmsghdr :: "arch \<Rightarrow> nat" where
  "SizeofCmsghdr a = SizeofPtr a + 8"

definition cmsgAlignOf :: "arch \<Rightarrow> nat \<Rightarrow> nat" where
  "cmsgAlignOf a salen = ((salen + SizeofPtr a - 1) div SizeofPtr a) * SizeofPtr a"

definition CmsgSpace :: "arch \<Rightarrow> nat \<Rightarrow> nat" where
  "CmsgSpace a datalen = cmsgAlignOf a (SizeofCmsghdr a) + cmsgAlignOf a datalen"

text \<open>
  \<open>Conn.SendWithFds\<close>: one message with one control message made by \<open>unix.UnixRights\<close>.
  The kernel attaches the open files that the descriptors reference; the model returns
  them, and leaves the bytes of the message out.
\<close>

fun rights_of :: "kernel \<Rightarrow> int list \<Rightarrow> fobj list option" where
  "rights_of k [] = Some []"
| "rights_of k (fd # fds) =
     (case fd_lookup k fd of
        None \<Rightarrow> None
      | Some obj \<Rightarrow> (case rights_of k fds of None \<Rightarrow> None | Some objs \<Rightarrow> Some (obj # objs)))"

definition SendWithFds :: "int list \<Rightarrow> kernel \<Rightarrow> (string + fobj list) \<times> kernel" where
  "SendWithFds fds k =
     (case fault k of
        Some e \<Rightarrow> (Inl e, log_call (Sys_sendmsg fds) k)
      | None \<Rightarrow>
          (case rights_of k fds of
             None \<Rightarrow> (Inl ''bad file descriptor'', log_call (Sys_sendmsg fds) k)
           | Some objs \<Rightarrow> (Inr objs, log_call (Sys_sendmsg fds) k)))"

text \<open>
  Receiving a message that carries open files, into a buffer of \<open>controllen\<close> bytes for
  the control message: the kernel makes descriptors for as many of the files as there is
  room for four bytes each after the header, from the first on, each at the lowest free
  number, and drops the others.
\<close>

definition scm_max_fds :: "arch \<Rightarrow> nat \<Rightarrow> nat" where
  "scm_max_fds a controllen =
     (if controllen \<le> SizeofCmsghdr a then 0 else (controllen - SizeofCmsghdr a) div 4)"

fun install_all :: "fobj list \<Rightarrow> fobj option list \<Rightarrow> int list \<times> fobj option list" where
  "install_all [] tab = ([], tab)"
| "install_all (obj # objs) tab =
     (case install_all objs (install obj tab) of
        (fds, tab') \<Rightarrow> (int (free_slot tab) # fds, tab'))"

definition sys_recvmsg :: "arch \<Rightarrow> nat \<Rightarrow> fobj list \<Rightarrow> kernel \<Rightarrow> (string + int list) \<times> kernel" where
  "sys_recvmsg a controllen objs k =
     (case fault k of
        Some e \<Rightarrow> (Inl e, log_call (Sys_recvmsg controllen) k)
      | None \<Rightarrow>
          (case install_all (take (scm_max_fds a controllen) objs) (fdtab k) of
             (fds, tab) \<Rightarrow> (Inr fds, (log_call (Sys_recvmsg controllen) k)\<lparr>fdtab := tab\<rparr>)))"

text \<open>
  \<open>Conn.ReceiveWithFds\<close>: the buffer for the control message has
  \<open>unix.CmsgSpace(maxfds*4)\<close> bytes, and the flags that \<open>ReadMsgUnix\<close> returns, which
  tell of dropped descriptors, are ignored. The descriptors returned are those of the
  control message that the kernel has written; the parsers fail on a malformed control
  message only. \<open>Client.do\<close> receives with \<open>c.conn.ReceiveWithFds(c.dec.Buffer(), 3)\<close>.
\<close>

definition ReceiveWithFds :: "arch \<Rightarrow> nat \<Rightarrow> fobj list \<Rightarrow> kernel \<Rightarrow> (string + int list) \<times> kernel" where
  "ReceiveWithFds a maxfds objs k = sys_recvmsg a (CmsgSpace a (maxfds * 4)) objs k"

definition Client_do_maxfds :: nat where
  "Client_do_maxfds = 3"

definition all_flat :: RoomsRequest where
  "all_flat = \<lparr>RoomsRequest.Spaces = validSpaces\<rparr>"

section \<open>Running a function inside other namespaces (execute.go)\<close>







section \<open>Notions for stating what decoding does\<close>

text \<open>
  The type of namespace the kernel reports for a descriptor, if it references one; the
  last descriptor of a list that the kernel reports to be of type \<open>t\<close>; and the system
  calls that decoding one descriptor makes when the types \<open>W\<close> are wanted: the query, and
  a close right after it unless the type is wanted.
\<close>

definition nstype_of :: "kernel \<Rightarrow> int \<Rightarrow> nstype option" where
  "nstype_of k fd = (case fd_lookup k fd of Some (NsHandle t n) \<Rightarrow> Some t | _ \<Rightarrow> None)"

definition last_of_type :: "kernel \<Rightarrow> nstype \<Rightarrow> int list \<Rightarrow> int option" where
  "last_of_type k t fds = find (\<lambda>fd. nstype_of k fd = Some t) (rev fds)"



text \<open>The type of the namespace that an open file is a handle of, if it is one.\<close>

definition obj_type :: "fobj \<Rightarrow> nstype option" where
  "obj_type obj = (case obj of NsHandle t n \<Rightarrow> Some t | _ \<Rightarrow> None)"

definition decode_calls :: "nstype set \<Rightarrow> kernel \<Rightarrow> int \<Rightarrow> syscall list" where
  "decode_calls W k fd =
     (if nstype_of k fd \<in> Some ` W then [Sys_ioctl_nstype fd]
      else [Sys_ioctl_nstype fd, Sys_close fd])"

text \<open>
  What decoding the descriptors \<open>fds\<close> into a RoomsResponse amounts to, from the response
  \<open>s\<close> and the kernel \<open>k\<close> to \<open>s'\<close> and \<open>k'\<close>: the system calls made are those of
  \<open>decode_calls\<close> for each descriptor in turn; the descriptors of \<open>fds\<close> that are not of
  a flat type are closed and nothing else in the descriptor table changes; the field of a
  flat type holds the last descriptor of that type, and is as before when there is none.
\<close>

definition rooms_decoded :: "int list \<Rightarrow> RoomsResponse \<Rightarrow> kernel \<Rightarrow> RoomsResponse \<Rightarrow> kernel \<Rightarrow> bool" where
  "rooms_decoded fds s k s' k' \<longleftrightarrow>
     trace k' = trace k @ concat (map (decode_calls (set flat_types) k) fds)
     \<and> (\<forall>x. fd_lookup k' x =
          (if x \<in> set fds \<and> nstype_of k x \<notin> Some ` set flat_types then None else fd_lookup k x))
     \<and> (\<forall>t \<in> set flat_types.
          room_fd t s' = (case last_of_type k t fds of Some fd \<Rightarrow> fd | None \<Rightarrow> room_fd t s))"

text \<open>The same for the descriptors after the first of a SubspaceResponse.\<close>

definition subspace_decoded ::
  "int list \<Rightarrow> SubspaceResponse \<Rightarrow> kernel \<Rightarrow> SubspaceResponse \<Rightarrow> kernel \<Rightarrow> bool" where
  "subspace_decoded fds s k s' k' \<longleftrightarrow>
     trace k' = trace k @ concat (map (decode_calls {NS_user, NS_pid} k) fds)
     \<and> (\<forall>x. fd_lookup k' x =
          (if x \<in> set fds \<and> nstype_of k x \<notin> Some ` {NS_user, NS_pid} then None else fd_lookup k x))
     \<and> User s' = (case last_of_type k NS_user fds of Some fd \<Rightarrow> fd | None \<Rightarrow> User s)
     \<and> PID s' = (case last_of_type k NS_pid fds of Some fd \<Rightarrow> fd | None \<Rightarrow> PID s)
     \<and> Conn s' = Conn s"

text \<open>The log of system calls only grows: \<open>k'\<close> is a later state of \<open>k\<close>.\<close>

definition extends :: "kernel \<Rightarrow> kernel \<Rightarrow> bool" where
  "extends k k' \<longleftrightarrow> (\<exists>calls. trace k' = trace k @ calls)"

text \<open>
  The same, and none of the calls made between \<open>k\<close> and \<open>k'\<close> opens a namespace of
  another process.
\<close>

definition opens_none :: "kernel \<Rightarrow> kernel \<Rightarrow> bool" where
  "opens_none k k' \<longleftrightarrow>
     (\<exists>calls. trace k' = trace k @ calls \<and> (\<forall>pid t. Sys_open_proc_ns pid t \<notin> set calls))"


text \<open>The descriptors of the \<open>Setns\<close> calls in a log, in the order of the calls.\<close>

fun setns_calls :: "syscall list \<Rightarrow> int list" where
  "setns_calls [] = []"
| "setns_calls (Sys_setns fd # cs) = fd # setns_calls cs"
| "setns_calls (c # cs) = setns_calls cs"


text \<open>
  The system calls of each unit of work, when the units for the types \<open>ts\<close> run one after
  the other, each from the kernel state its predecessor left: for each type the calls that
  its \<open>newNamespace\<close> adds to the log.
\<close>

fun unit_segments :: "thread \<Rightarrow> nstype list \<Rightarrow> kernel \<Rightarrow> (nstype \<times> syscall list) list" where
  "unit_segments worker [] k = []"
| "unit_segments worker (t # ts) k =
     (case newNamespace t worker k of
        (res, _, k1) \<Rightarrow> (t, drop (length (trace k)) (trace k1)) # unit_segments worker ts k1)"

section \<open>Concrete inputs\<close>

text \<open>
  A process with the three standard descriptors open and no faults, a thread attached to
  namespace 1 of every type, and the request for a network and a UTS namespace.
\<close>

definition kernel0 :: kernel where
  "kernel0 = \<lparr>fdtab = [Some PlainFile, Some PlainFile, Some PlainFile], next_ns = 10, procs = [],
      next_pid = 100, faults = [], trace = []\<rparr>"

definition thread0 :: thread where
  "thread0 = \<lparr>attached = (\<lambda>t. 1), locked = 0\<rparr>"

definition net_uts :: RoomsRequest where
  "net_uts = \<lparr>RoomsRequest.Spaces = CLONE_NEWNET OR CLONE_NEWUTS\<rparr>"

text \<open>The same process where the second system call fails.\<close>

definition kernel_eperm :: kernel where
  "kernel_eperm = kernel0\<lparr>faults := [(1, ''operation not permitted'')]\<rparr>"

text \<open>The kernel after the two units of that request have run, without and with the fault.\<close>

definition kernel0_after_units :: kernel where
  "kernel0_after_units =
     \<lparr>fdtab = [Some PlainFile, Some PlainFile, Some PlainFile, None,
        Some (NsHandle NS_net 10), Some (NsHandle NS_uts 11)],
      next_ns = 12, procs = [], next_pid = 100, faults = [],
      trace = [Sys_open_thread_ns NS_net, Sys_unshare NS_net, Sys_open_thread_ns NS_net,
        Sys_setns 3, Sys_close 3, Sys_open_thread_ns NS_uts, Sys_unshare NS_uts,
        Sys_open_thread_ns NS_uts, Sys_setns 3, Sys_close 3]\<rparr>"

definition kernel_eperm_after_units :: kernel where
  "kernel_eperm_after_units =
     \<lparr>fdtab = [Some PlainFile, Some PlainFile, Some PlainFile, None, Some (NsHandle NS_uts 10)],
      next_ns = 11, procs = [], next_pid = 100,
      faults = [(1, ''operation not permitted'')],
      trace = [Sys_open_thread_ns NS_net, Sys_unshare NS_net, Sys_setns 3, Sys_close 3,
        Sys_open_thread_ns NS_uts, Sys_unshare NS_uts, Sys_open_thread_ns NS_uts,
        Sys_setns 3, Sys_close 3]\<rparr>"

text \<open>
  Requests that are not valid: nothing selected, a flat type in a SubspaceRequest, a
  hierarchical type in a RoomsRequest.
\<close>

definition no_spaces :: SubspaceRequest where
  "no_spaces = \<lparr>SubspaceRequest.Spaces = 0\<rparr>"

definition net_in_subspace :: SubspaceRequest where
  "net_in_subspace = \<lparr>SubspaceRequest.Spaces = CLONE_NEWUSER OR CLONE_NEWNET\<rparr>"

definition pid_in_rooms :: RoomsRequest where
  "pid_in_rooms = \<lparr>RoomsRequest.Spaces = CLONE_NEWNET OR CLONE_NEWPID\<rparr>"

text \<open>
  A process that also holds a handle of a network namespace (3), a plain file (4), a handle
  of a user namespace (5) and a socket (6); and the responses with no handle in them.
\<close>

definition kernel_fds :: kernel where
  "kernel_fds = \<lparr>fdtab = [Some PlainFile, Some PlainFile, Some PlainFile, Some (NsHandle NS_net 7),
        Some PlainFile, Some (NsHandle NS_user 8), Some (SocketEnd 0)],
      next_ns = 10, procs = [], next_pid = 100, faults = [], trace = []\<rparr>"

definition no_rooms :: RoomsResponse where
  "no_rooms = \<lparr>Cgroup = 0, IPC = 0, Mnt = 0, Net = 0, Time = 0, UTS = 0\<rparr>"

definition no_subspace :: SubspaceResponse where
  "no_subspace = \<lparr>Conn = 0, User = 0, PID = 0\<rparr>"

text \<open>
  The request for a PID namespace only, and the kernel of \<open>kernel0\<close> at the moment when
  \<open>Subspace\<close> has come to start the child for it: the two connections are descriptors 5
  and 3, the file for the child is descriptor 4, and the child is process 100.
\<close>

definition pid_only :: SubspaceRequest where
  "pid_only = \<lparr>SubspaceRequest.Spaces = CLONE_NEWPID\<rparr>"


text \<open>The kernel after the six units of the request for all flat types have run.\<close>

definition kernel0_all_flat :: kernel where
  "kernel0_all_flat = snd (run_units thread0 flat_types kernel0)"

text \<open>A response with the handles of a network and a UTS namespace.\<close>

definition rooms_net_uts :: RoomsResponse where
  "rooms_net_uts = \<lparr>Cgroup = 0, IPC = 0, Mnt = 0, Net = 4, Time = 0, UTS = 5\<rparr>"










text \<open>
  Four open files that travel with a message, handles of a cgroup, an IPC, a mount and a
  network namespace.
\<close>

definition four_handles :: "fobj list" where
  "four_handles = [NsHandle NS_cgroup 10, NsHandle NS_ipc 11, NsHandle NS_mnt 12, NsHandle NS_net 13]"

text \<open>
  The client process \<open>kernel0\<close> after it has received these four, with room for 32 bytes
  of control message; and the six open files of the handles that \<open>Room\<close> returns for the
  request for all flat types in \<open>kernel0\<close>.
\<close>

definition kernel0_received :: kernel where
  "kernel0_received =
     \<lparr>fdtab = [Some PlainFile, Some PlainFile, Some PlainFile, Some (NsHandle NS_cgroup 10),
        Some (NsHandle NS_ipc 11), Some (NsHandle NS_mnt 12), Some (NsHandle NS_net 13)],
      next_ns = 10, procs = [], next_pid = 100, faults = [], trace = [Sys_recvmsg 32]\<rparr>"

definition six_handles :: "fobj list" where
  "six_handles = [NsHandle NS_cgroup 10, NsHandle NS_ipc 11, NsHandle NS_mnt 12, NsHandle NS_net 13,
     NsHandle NS_time 1, NsHandle NS_uts 15]"

section \<open>Descriptor table and system calls: basic facts\<close>

lemma slot_free_slot: "slot tab (free_slot tab) = None"
  by (induction tab rule: free_slot.induct) (auto simp: slot_def)

lemma slot_Cons: "slot (x # tab) i = (case i of 0 \<Rightarrow> x | Suc j \<Rightarrow> slot tab j)"
  by (simp add: slot_def split: nat.splits)

lemma slot_below_free: "i < free_slot tab \<Longrightarrow> slot tab i \<noteq> None"
proof (induction tab arbitrary: i rule: free_slot.induct)
  case (3 obj tab)
  then show ?case by (cases i) (simp_all add: slot_Cons)
qed simp_all

lemma free_slot_le: "free_slot tab \<le> length tab"
  by (induction tab rule: free_slot.induct) auto

lemma slot_install: "slot (install obj tab) i = (if i = free_slot tab then Some obj else slot tab i)"
  using free_slot_le [of tab]
  by (auto simp: slot_def install_def nth_append nth_list_update)

lemma slot_release: "slot (release i tab) j = (if j = i then None else slot tab j)"
  by (auto simp: slot_def release_def nth_list_update)

lemma free_slot_install: "free_slot tab < free_slot (install obj tab)"
proof -
  have "slot (install obj tab) i \<noteq> None" if "i \<le> free_slot tab" for i
    using that slot_below_free [of i tab] by (cases "i = free_slot tab") (auto simp: slot_install)
  then show ?thesis
    using slot_free_slot [of "install obj tab"] by (meson not_le_imp_less)
qed

lemma fd_lookup_log_call [simp]: "fd_lookup (log_call c k) fd = fd_lookup k fd"
  by (simp add: fd_lookup_def log_call_def)

lemma trace_log_call [simp]: "trace (log_call c k) = trace k @ [c]"
  by (simp add: log_call_def)

lemma fd_lookup_sys_close: "fd_lookup (sys_close fd k) x = (if x = fd then None else fd_lookup k x)"
  by (auto simp: fd_lookup_def sys_close_def log_call_def slot_release)

lemma sys_open_Inl: "sys_open c obj k = (Inl e, k') \<Longrightarrow> fd_lookup k' = fd_lookup k"
  by (auto simp: sys_open_def fun_eq_iff split: option.splits)


lemma sys_open_frame_Inl:
  "sys_open c obj k = (Inl e, k') \<Longrightarrow> fdtab k' = fdtab k \<and> next_ns k' = next_ns k"
  by (auto simp: sys_open_def log_call_def split: option.splits)

lemma sys_open_frame_Inr:
  "sys_open c obj k = (Inr fd, k') \<Longrightarrow>
     fd = int (free_slot (fdtab k)) \<and> fdtab k' = install obj (fdtab k) \<and> next_ns k' = next_ns k"
  by (auto simp: sys_open_def log_call_def split: option.splits)

lemma sys_setns_fdtab: "sys_setns fd want thr k = (r, thr', k') \<Longrightarrow> fdtab k' = fdtab k"
  by (auto simp: sys_setns_def log_call_def split: option.splits fobj.splits if_splits)

lemma sys_unshare_frame_Some:
  "sys_unshare t thr k = (Some e, thr', k') \<Longrightarrow> fdtab k' = fdtab k"
  by (auto simp: sys_unshare_def log_call_def split: option.splits)

lemma sys_unshare_frame_None:
  "sys_unshare t thr k = (None, thr', k') \<Longrightarrow>
     fdtab k' = fdtab k \<and> attached thr' t = (if t = NS_time then attached thr t else next_ns k)"
  by (auto simp: sys_unshare_def log_call_def split: option.splits)

lemma sys_unshare_fs_frame:
  "sys_unshare_fs k = (r, k') \<Longrightarrow> fdtab k' = fdtab k \<and> next_ns k' = next_ns k"
  by (auto simp: sys_unshare_fs_def log_call_def)

lemma sys_mount_private_frame: "sys_mount_private k = (r, k') \<Longrightarrow> fdtab k' = fdtab k"
  by (auto simp: sys_mount_private_def log_call_def)

lemma fdtab_sys_close: "fdtab (sys_close fd k) = (if fd < 0 then fdtab k else release (nat fd) (fdtab k))"
  by (simp add: sys_close_def log_call_def)

text \<open>What the creation steps between the two opens do to the table.\<close>

lemma newNamespace_create_Inl:
  "newNamespace_create typ thr k = (Inl e, thr', k') \<Longrightarrow> fdtab k' = fdtab k"
  unfolding newNamespace_create_def open_thread_ns_def
  by (auto split: prod.splits option.splits sum.splits if_splits
      dest!: sys_unshare_frame_Some sys_unshare_frame_None sys_unshare_fs_frame
        sys_mount_private_frame sys_open_frame_Inl)

lemma newNamespace_create_Inr:
  "newNamespace_create typ thr k = (Inr fd, thr', k') \<Longrightarrow>
     fd = int (free_slot (fdtab k)) \<and>
     fdtab k' = install (NsHandle typ (if typ = NS_time then attached thr NS_time else next_ns k)) (fdtab k)"
  unfolding newNamespace_create_def open_thread_ns_def
  by (auto split: prod.splits option.splits sum.splits if_splits
      dest!: sys_unshare_frame_None sys_unshare_fs_frame sys_mount_private_frame sys_open_frame_Inr)

lemma fd_lookup_tab: "fd_lookup k = tab_lookup (fdtab k)"
  by (simp add: fd_lookup_def tab_lookup_def fun_eq_iff)

lemma newNamespace_Inl:
  assumes "newNamespace typ thr k = (Inl e, thr', k')"
  shows "fd_lookup k' = fd_lookup k"
proof -
  have *: "tab_lookup (release (free_slot tab) (install obj tab)) = tab_lookup tab" for obj tab
    by (auto simp: tab_lookup_def fun_eq_iff slot_release slot_install slot_free_slot)
  have **: "tab_lookup (release (free_slot tab) tab) = tab_lookup tab" for tab
    by (auto simp: tab_lookup_def fun_eq_iff slot_release slot_install slot_free_slot)
  show ?thesis
    using assms unfolding newNamespace_def open_thread_ns_def Let_def fd_lookup_tab
    by (auto simp: fdtab_sys_close * split: prod.splits sum.splits
        dest!: sys_open_frame_Inl sys_open_frame_Inr sys_setns_fdtab newNamespace_create_Inl)
qed

lemma newNamespace_Inr:
  assumes "newNamespace typ thr k = (Inr fd, thr', k')"
  shows "0 < fd" and "fd_lookup k fd = None"
    and "\<exists>n. fd_lookup k' = (fd_lookup k)(fd := Some (NsHandle typ n))"
proof -
  define tab where "tab = fdtab k"
  have *: "tab_lookup (release (free_slot tab) (install h (install co tab)))
       = (tab_lookup tab)(int (free_slot (install co tab)) := Some h)" for h co
    using free_slot_install [of tab co]
    by (auto simp: tab_lookup_def fun_eq_iff slot_release slot_install slot_free_slot)
  have **: "tab_lookup tab (int (free_slot (install co tab))) = None" for co
    using slot_free_slot [of "install co tab"] free_slot_install [of tab co]
    by (auto simp: tab_lookup_def slot_install split: if_splits)
  from assms obtain co n where fd: "fd = int (free_slot (install co tab))"
    and tab': "fdtab k' = release (free_slot tab) (install (NsHandle typ n) (install co tab))"
    unfolding newNamespace_def open_thread_ns_def Let_def tab_def
    by (auto simp: fdtab_sys_close split: prod.splits sum.splits
        dest!: sys_setns_fdtab newNamespace_create_Inr sys_open_frame_Inr)
  show "0 < fd" using fd free_slot_install [of tab co] by simp
  show "fd_lookup k fd = None" using ** fd by (simp add: fd_lookup_tab tab_def)
  have "fd_lookup k' = (fd_lookup k)(fd := Some (NsHandle typ n))"
    using * fd tab' by (simp add: fd_lookup_tab tab_def)
  then show "\<exists>n. fd_lookup k' = (fd_lookup k)(fd := Some (NsHandle typ n))" ..
qed

lemma valid_and: "valid_RoomsRequest req \<Longrightarrow> RoomsRequest.Spaces req AND validSpaces \<noteq> 0"
  unfolding valid_RoomsRequest_def
  by (metis and.right_neutral bit.conj_cancel_right bit.conj_disj_distrib bit.disj_cancel_right or.left_neutral)

lemma unshare_fold:
  "foldl (\<lambda>st t. unshare req worker t (room_upd t) st) (resp, errmsg, k) ts =
     (case run_units worker (filter (requested req) ts) k of
        (rs, k') \<Rightarrow> (case foldl (\<lambda>st u. apply_unit u st) (resp, errmsg) rs of (resp', errmsg') \<Rightarrow> (resp', errmsg', k')))"
proof (induction ts arbitrary: resp errmsg k)
  case Nil
  then show ?case by simp
next
  case (Cons t ts)
  show ?case
  proof (cases "requested req t")
    case False
    then have "unshare req worker t (room_upd t) (resp, errmsg, k) = (resp, errmsg, k)"
      by (simp add: unshare_def requested_def)
    with False Cons show ?thesis by simp
  next
    case True
    obtain res thr1 k1 where nn: "newNamespace t worker k = (res, thr1, k1)"
      by (cases "newNamespace t worker k")
    obtain resp1 errmsg1 where au: "apply_unit (t, res) (resp, errmsg) = (resp1, errmsg1)"
      by (cases "apply_unit (t, res) (resp, errmsg)")
    have "unshare req worker t (room_upd t) (resp, errmsg, k) = (resp1, errmsg1, k1)"
      using True nn au by (cases res) (auto simp: unshare_def requested_def apply_unit_def)
    with True Cons nn au show ?thesis by (simp split: prod.splits)
  qed
qed

lemma room_upd_lambda:
  "(\<lambda>fd r. r\<lparr>Cgroup := fd\<rparr>) = room_upd NS_cgroup"
  "(\<lambda>fd r. r\<lparr>IPC := fd\<rparr>) = room_upd NS_ipc"
  "(\<lambda>fd r. r\<lparr>Mnt := fd\<rparr>) = room_upd NS_mnt"
  "(\<lambda>fd r. r\<lparr>Net := fd\<rparr>) = room_upd NS_net"
  "(\<lambda>fd r. r\<lparr>Time := fd\<rparr>) = room_upd NS_time"
  "(\<lambda>fd r. r\<lparr>UTS := fd\<rparr>) = room_upd NS_uts"
  by (simp_all add: fun_eq_iff)

lemma Room_units:
  assumes "valid_RoomsRequest req"
  shows "Room worker k req =
     (case run_units worker (filter (requested req) flat_types) k of
        (rs, k') \<Rightarrow>
          (case foldl (\<lambda>st u. apply_unit u st) (no_rooms, '''') rs of
             (resp, errmsg) \<Rightarrow>
               if errmsg \<noteq> '''' then (ErrorResponse errmsg, close_fields resp k')
               else (RoomsResp resp, k')))"
proof -
  have nest: "unshare req worker NS_uts (room_upd NS_uts) (unshare req worker NS_time (room_upd NS_time)
      (unshare req worker NS_net (room_upd NS_net) (unshare req worker NS_mnt (room_upd NS_mnt)
      (unshare req worker NS_ipc (room_upd NS_ipc) (unshare req worker NS_cgroup (room_upd NS_cgroup) st)))))
    = foldl (\<lambda>st t. unshare req worker t (room_upd t) st) st flat_types" for st
    by (simp add: flat_types_def)
  have "Room worker k req =
      (case foldl (\<lambda>st t. unshare req worker t (room_upd t) st) (no_rooms, '''', k) flat_types of
         (resp, errmsg, k') \<Rightarrow>
           if errmsg \<noteq> '''' then (ErrorResponse errmsg, close_fields resp k')
           else (RoomsResp resp, k'))"
    using assms valid_and [OF assms]
    unfolding Room_def Let_def room_upd_lambda nest close_fields_def no_rooms_def valid_RoomsRequest_def
    by simp
  then show ?thesis
    by (simp add: unshare_fold split: prod.splits)
qed

lemma join_comma_Nil_iff: "\<forall>x \<in> set xs. x \<noteq> [] \<Longrightarrow> join_comma xs = [] \<longleftrightarrow> xs = []"
  by (induction xs rule: join_comma.induct) auto

lemma join_comma_append1:
  "\<forall>y \<in> set xs. y \<noteq> [] \<Longrightarrow>
     join_comma (xs @ [x]) = (if join_comma xs \<noteq> [] then join_comma xs @ [CHR 0x2C] else join_comma xs) @ x"
  by (induction xs rule: join_comma.induct) (auto simp: join_comma_Nil_iff)

lemma failures_nonempty: "\<forall>x \<in> set (failures rs). x \<noteq> []"
  by (induction rs rule: failures.induct) auto

lemma foldl_apply_unit:
  "\<forall>y \<in> set xs. y \<noteq> [] \<Longrightarrow>
   foldl (\<lambda>st u. apply_unit u st) (resp, join_comma xs) rs =
     (foldl (\<lambda>r (t, fd). room_upd t fd r) resp (successes rs), join_comma (xs @ failures rs))"
proof (induction rs arbitrary: resp xs rule: failures.induct)
  case 1
  then show ?case by simp
next
  case (2 t err rs)
  have "apply_unit (t, Inl err) (resp, join_comma xs) = (resp, join_comma (xs @ [Name t @ [CHR 0x3A] @ err]))"
    using 2(2) by (simp add: apply_unit_def join_comma_append1)
  then show ?case using 2(1) [of "xs @ [Name t @ [CHR 0x3A] @ err]" resp] 2(2) by simp
next
  case (3 t fd rs)
  then show ?case by (simp add: apply_unit_def)
qed

lemma run_units_types: "run_units worker ts k = (rs, k') \<Longrightarrow> map fst rs = ts"
  by (induction ts arbitrary: k rs k') (auto split: prod.splits)

lemma run_units_ok: "run_units worker ts k = (rs, k') \<Longrightarrow> units_ok k rs k'"
proof (induction ts arbitrary: k rs k')
  case Nil
  then show ?case by (simp add: units_ok_def)
next
  case (Cons t ts)
  obtain res thr1 k1 where nn: "newNamespace t worker k = (res, thr1, k1)"
    by (cases "newNamespace t worker k")
  obtain rs1 where ru: "run_units worker ts k1 = (rs1, k')" and rs: "rs = (t, res) # rs1"
    using Cons.prems nn by (auto split: prod.splits)
  have ih: "units_ok k1 rs1 k'" by (rule Cons.IH [OF ru])
  show ?case
  proof (cases res)
    case (Inl e)
    then have "fd_lookup k1 = fd_lookup k" using nn newNamespace_Inl by blast
    with ih show ?thesis by (simp add: units_ok_def rs Inl)
  next
    case (Inr fd)
    note f = newNamespace_Inr [OF nn [unfolded Inr]]
    from f(3) obtain n where f3: "fd_lookup k1 = (fd_lookup k)(fd := Some (NsHandle t n))" ..
    have notin: "fd \<notin> snd ` set (successes rs1)"
      using ih f3 by (fastforce simp: units_ok_def)
    then have "fd_lookup k' fd = Some (NsHandle t n)"
      using ih f3 by (simp add: units_ok_def)
    moreover have "\<forall>(t', fd') \<in> set (successes rs1). 0 < fd' \<and> fd_lookup k fd' = None \<and>
        (\<exists>n. fd_lookup k' fd' = Some (NsHandle t' n))"
      using ih f3 by (fastforce simp: units_ok_def split: if_splits)
    moreover have "\<forall>x. x \<notin> snd ` set (successes rs) \<longrightarrow> fd_lookup k' x = fd_lookup k x"
      using ih f3 by (auto simp: units_ok_def rs Inr)
    ultimately show ?thesis
      using f(1,2) notin ih by (auto simp: units_ok_def rs Inr)
  qed
qed

lemma room_fd_upd:
  "t \<in> set flat_types \<Longrightarrow> room_fd t (room_upd t' fd r) = (if t = t' then fd else room_fd t r)"
  by (cases t; cases t') (simp_all add: flat_types_def)

lemma room_fd_foldl:
  assumes "t \<in> set flat_types" "distinct (map fst ss)"
  shows "room_fd t (foldl (\<lambda>r (t, fd). room_upd t fd r) resp ss) =
     (case map_of ss t of Some fd \<Rightarrow> fd | None \<Rightarrow> room_fd t resp)"
  using assms(2)
proof (induction ss arbitrary: resp)
  case Nil
  then show ?case by simp
next
  case (Cons a ss)
  obtain t' fd' where a: "a = (t', fd')" by (cases a)
  have "map_of ss t' = None" using Cons.prems a by (simp add: map_of_eq_None_iff)
  then show ?case using Cons a assms(1) by (auto simp: room_fd_upd split: option.splits)
qed

lemma successes_set: "(t, fd) \<in> set (successes rs) \<longleftrightarrow> (t, Inr fd) \<in> set rs"
  by (induction rs rule: successes.induct) auto

lemma successes_fst: "map fst (successes rs) = map fst (filter (\<lambda>u. \<exists>fd. snd u = Inr fd) rs)"
  by (induction rs rule: successes.induct) auto

lemma failures_Nil_iff: "failures rs = [] \<longleftrightarrow> (\<forall>u \<in> set rs. \<exists>fd. snd u = Inr fd)"
  by (induction rs rule: failures.induct) auto

lemma distinct_successes: "distinct (map fst rs) \<Longrightarrow> distinct (map fst (successes rs))"
  by (simp add: successes_fst distinct_map_filter)

lemma fd_lookup_close_if_open:
  "fd_lookup (close_if_open fd k) x = (if 0 < fd \<and> x = fd then None else fd_lookup k x)"
  by (simp add: close_if_open_def fd_lookup_sys_close)

lemma trace_sys_close [simp]: "trace (sys_close fd k) = trace k @ [Sys_close fd]"
  by (simp add: sys_close_def log_call_def)

lemma trace_close_if_open:
  "trace (close_if_open fd k) = trace k @ (if 0 < fd then [Sys_close fd] else [])"
  by (simp add: close_if_open_def)

lemma fd_lookup_close_fields:
  "fd_lookup (close_fields resp k) x =
     (if 0 < x \<and> (\<exists>t \<in> set flat_types. room_fd t resp = x) then None else fd_lookup k x)"
  by (auto simp: close_fields_def fd_lookup_close_if_open flat_types_def)

lemma trace_close_fields:
  "trace (close_fields resp k) =
     trace k @ map Sys_close (filter (\<lambda>fd. 0 < fd) (map (\<lambda>t. room_fd t resp) flat_types))"
  by (simp add: close_fields_def trace_close_if_open flat_types_def)

lemma units_types:
  assumes "run_units worker (filter (requested req) flat_types) k = (rs, k1)"
  shows "map fst rs = filter (requested req) flat_types" and "distinct (map fst rs)"
    and "distinct (map fst (successes rs))"
proof -
  show *: "map fst rs = filter (requested req) flat_types" by (rule run_units_types [OF assms])
  show "distinct (map fst rs)" unfolding * by (simp add: flat_types_def)
  then show "distinct (map fst (successes rs))" by (rule distinct_successes)
qed

lemma Room_result:
  assumes "valid_RoomsRequest req"
    and "run_units worker (filter (requested req) flat_types) k = (rs, k1)"
  shows "Room worker k req =
     (if failures rs \<noteq> []
      then (ErrorResponse (join_comma (failures rs)),
            close_fields (foldl (\<lambda>r (t, fd). room_upd t fd r) no_rooms (successes rs)) k1)
      else (RoomsResp (foldl (\<lambda>r (t, fd). room_upd t fd r) no_rooms (successes rs)), k1))"
  using foldl_apply_unit [of "[]" no_rooms rs] join_comma_Nil_iff [OF failures_nonempty, of rs]
  by (simp add: Room_units [OF assms(1)] assms(2))

section \<open>Evaluating the concrete inputs\<close>

lemmas flag_defs = CLONE_NEWNET_def CLONE_NEWUTS_def CLONE_NEWCGROUP_def CLONE_NEWIPC_def
  CLONE_NEWNS_def CLONE_NEWTIME_def CLONE_NEWUSER_def CLONE_NEWPID_def

lemmas kernel_defs = newNamespace_def newNamespace_create_def
  open_thread_ns_def sys_open_def sys_setns_def sys_unshare_def sys_close_def fault_def log_call_def
  sys_unshare_fs_def sys_mount_private_def
  LockOSThread_def install_def release_def fd_lookup_def slot_def Let_def

lemma net_uts_valid: "valid_RoomsRequest net_uts"
  by (simp add: valid_RoomsRequest_def net_uts_def validSpaces_def flag_defs)

lemma net_uts_types: "filter (requested net_uts) flat_types = [NS_net, NS_uts]"
  by (simp add: requested_def net_uts_def flat_types_def flag_defs)

lemma net_uts_units:
  "run_units thread0 (filter (requested net_uts) flat_types) kernel0 =
     ([(NS_net, Inr 4), (NS_uts, Inr 5)], kernel0_after_units)"
  unfolding net_uts_types
  by (simp add: kernel0_def thread0_def kernel0_after_units_def kernel_defs)

lemma net_uts_units_eperm:
  "run_units thread0 (filter (requested net_uts) flat_types) kernel_eperm =
     ([(NS_net, Inl ''operation not permitted''), (NS_uts, Inr 4)], kernel_eperm_after_units)"
  unfolding net_uts_types
  by (simp add: kernel_eperm_def kernel0_def thread0_def kernel_eperm_after_units_def kernel_defs)

text \<open>The response when every unit succeeds; shared by the claims about Room.\<close>

lemma Room_success_aux:
  assumes "valid_RoomsRequest req"
    and "run_units worker (filter (requested req) flat_types) k = (rs, k1)"
    and "\<forall>u \<in> set rs. \<exists>fd. snd u = Inr fd"
  shows "\<exists>resp. Room worker k req = (RoomsResp resp, k1) \<and>
      (\<forall>t \<in> set flat_types.
         if requested req t
         then 0 < room_fd t resp \<and> (\<exists>n. fd_lookup k1 (room_fd t resp) = Some (NsHandle t n))
         else room_fd t resp = 0)"
proof -
  define resp where "resp = foldl (\<lambda>r (t, fd). room_upd t fd r) no_rooms (successes rs)"
  have nofail: "failures rs = []" using assms(3) by (simp add: failures_Nil_iff)
  have room: "Room worker k req = (RoomsResp resp, k1)"
    using Room_result [OF assms(1,2)] nofail by (simp add: resp_def)
  note ty = units_types [OF assms(2)]
  have ok: "units_ok k rs k1" by (rule run_units_ok [OF assms(2)])
  have field: "room_fd t resp = (case map_of (successes rs) t of Some fd \<Rightarrow> fd | None \<Rightarrow> 0)"
    if "t \<in> set flat_types" for t
    using room_fd_foldl [OF that ty(3), of no_rooms] that
    by (auto simp: resp_def no_rooms_def flat_types_def split: option.splits)
  have "if requested req t
         then 0 < room_fd t resp \<and> (\<exists>n. fd_lookup k1 (room_fd t resp) = Some (NsHandle t n))
         else room_fd t resp = 0" if t: "t \<in> set flat_types" for t
  proof (cases "requested req t")
    case True
    then have "t \<in> set (map fst rs)" using t by (simp add: ty(1))
    then obtain res where "(t, res) \<in> set rs" by auto
    then obtain fd where "(t, Inr fd) \<in> set rs" using assms(3) by fastforce
    then have mem: "(t, fd) \<in> set (successes rs)" by (simp add: successes_set)
    then have "map_of (successes rs) t = Some fd" using ty(3) by simp
    then have "room_fd t resp = fd" by (simp add: field [OF t])
    with mem ok True show ?thesis by (fastforce simp: units_ok_def)
  next
    case False
    then have "t \<notin> set (map fst rs)" by (simp add: ty(1))
    then have "t \<notin> fst ` set (successes rs)" by (force simp: successes_set)
    then have "map_of (successes rs) t = None" by (simp add: map_of_eq_None_iff)
    with False show ?thesis by (simp add: field [OF t])
  qed
  with room show ?thesis by blast
qed

section \<open>Room: all units succeed\<close>

text \<open>
  Claim C2. For every valid RoomsRequest, when every unit of work that \<open>Room\<close> runs
  succeeds, \<open>Room\<close> returns a RoomsResponse; for each of the six flat types the field of
  the type is positive if the type was requested and zero if not, and a positive field is an
  open descriptor that references a namespace of that very type.
\<close>

theorem Room_success:
  assumes "valid_RoomsRequest req"
    and "run_units worker (filter (requested req) flat_types) k = (rs, k1)"
    and "\<forall>u \<in> set rs. \<exists>fd. snd u = Inr fd"
  shows "\<exists>resp. Room worker k req = (RoomsResp resp, k1) \<and>
      (\<forall>t \<in> set flat_types.
         if requested req t
         then 0 < room_fd t resp \<and> (\<exists>n. fd_lookup k1 (room_fd t resp) = Some (NsHandle t n))
         else room_fd t resp = 0)"
  using assms by (rule Room_success_aux)

theorem Room_success_witness:
  "valid_RoomsRequest net_uts \<and>
   (\<exists>resp. Room thread0 kernel0 net_uts = (RoomsResp resp, kernel0_after_units)
        \<and> 0 < Net resp \<and> 0 < UTS resp
        \<and> (\<exists>n. fd_lookup kernel0_after_units (Net resp) = Some (NsHandle NS_net n))
        \<and> (\<exists>n. fd_lookup kernel0_after_units (UTS resp) = Some (NsHandle NS_uts n))
        \<and> Cgroup resp = 0 \<and> IPC resp = 0 \<and> Mnt resp = 0 \<and> Time resp = 0)"
proof -
  have h3: "\<forall>u \<in> set [(NS_net, Inr 4), (NS_uts, Inr (5::int))]. \<exists>fd. snd u = (Inr fd :: string + int)"
    by simp
  from Room_success [OF net_uts_valid net_uts_units h3] obtain resp where
    r: "Room thread0 kernel0 net_uts = (RoomsResp resp, kernel0_after_units)"
    and f: "\<forall>t \<in> set flat_types.
         if requested net_uts t
         then 0 < room_fd t resp \<and> (\<exists>n. fd_lookup kernel0_after_units (room_fd t resp) = Some (NsHandle t n))
         else room_fd t resp = 0"
    by blast
  have req: "requested net_uts NS_net" "requested net_uts NS_uts" "\<not> requested net_uts NS_cgroup"
    "\<not> requested net_uts NS_ipc" "\<not> requested net_uts NS_mnt" "\<not> requested net_uts NS_time"
    by (simp_all add: requested_def net_uts_def flag_defs)
  from f req have "0 < Net resp \<and> 0 < UTS resp
        \<and> (\<exists>n. fd_lookup kernel0_after_units (Net resp) = Some (NsHandle NS_net n))
        \<and> (\<exists>n. fd_lookup kernel0_after_units (UTS resp) = Some (NsHandle NS_uts n))
        \<and> Cgroup resp = 0 \<and> IPC resp = 0 \<and> Mnt resp = 0 \<and> Time resp = 0"
    unfolding flat_types_def by (simp del: One_nat_def)
  with r net_uts_valid show ?thesis by blast
qed

section \<open>Room: some unit fails\<close>

text \<open>
  Claim C3. For every valid RoomsRequest, when at least one of the units of work fails,
  \<open>Room\<close> returns an ErrorResponse (so never a RoomsResponse) whose reason lists, separated
  by commas, each failing type with the reason of its failure; every handle that a unit has
  obtained is closed after the units have run, and the descriptor table is what it was
  before the request.
\<close>

theorem Room_failure:
  assumes "valid_RoomsRequest req"
    and "run_units worker (filter (requested req) flat_types) k = (rs, k1)"
    and "\<exists>t err. (t, Inl err) \<in> set rs"
  shows "\<exists>k'. Room worker k req = (ErrorResponse (join_comma (failures rs)), k') \<and>
      (\<forall>(t, fd) \<in> set (successes rs).
          Sys_close fd \<in> set (drop (length (trace k1)) (trace k')) \<and> fd_lookup k' fd = None) \<and>
      fd_lookup k' = fd_lookup k"
proof -
  define resp where "resp = foldl (\<lambda>r (t, fd). room_upd t fd r) no_rooms (successes rs)"
  define k' where "k' = close_fields resp k1"
  have fail: "failures rs \<noteq> []" using assms(3) by (force simp: failures_Nil_iff)
  have room: "Room worker k req = (ErrorResponse (join_comma (failures rs)), k')"
    using Room_result [OF assms(1,2)] fail by (simp add: resp_def k'_def)
  note ty = units_types [OF assms(2)]
  have ok: "units_ok k rs k1" by (rule run_units_ok [OF assms(2)])
  have field: "room_fd t resp = (case map_of (successes rs) t of Some fd \<Rightarrow> fd | None \<Rightarrow> 0)"
    if "t \<in> set flat_types" for t
    using room_fd_foldl [OF that ty(3), of no_rooms] that
    by (auto simp: resp_def no_rooms_def flat_types_def split: option.splits)
  have flat: "t \<in> set flat_types" if "(t, fd) \<in> set (successes rs)" for t fd
  proof -
    from that have "t \<in> set (map fst rs)" by (force simp: successes_set)
    then show ?thesis by (simp add: ty(1))
  qed
  have stored: "room_fd t resp = fd \<and> 0 < fd" if "(t, fd) \<in> set (successes rs)" for t fd
    using that field [OF flat [OF that]] ty(3) ok by (fastforce simp: units_ok_def)
  have closed: "Sys_close fd \<in> set (drop (length (trace k1)) (trace k')) \<and> fd_lookup k' fd = None"
    if "(t, fd) \<in> set (successes rs)" for t fd
    using stored [OF that] flat [OF that]
    by (auto simp: k'_def trace_close_fields fd_lookup_close_fields)
  have "fd_lookup k' x = fd_lookup k x" for x
  proof (cases "0 < x \<and> (\<exists>t \<in> set flat_types. room_fd t resp = x)")
    case True
    then obtain t where t: "t \<in> set flat_types" "room_fd t resp = x" "0 < x" by blast
    then obtain fd where "map_of (successes rs) t = Some fd" "fd = x"
      using field [OF t(1)] by (auto split: option.splits)
    then have "(t, x) \<in> set (successes rs)" by (auto dest: map_of_SomeD)
    then have "fd_lookup k x = None" using ok by (fastforce simp: units_ok_def)
    with True show ?thesis by (simp add: k'_def fd_lookup_close_fields)
  next
    case False
    have "x \<notin> snd ` set (successes rs)"
    proof
      assume "x \<in> snd ` set (successes rs)"
      then obtain t where "(t, x) \<in> set (successes rs)" by auto
      with stored flat False show False by blast
    qed
    with ok False show ?thesis by (auto simp: k'_def fd_lookup_close_fields units_ok_def)
  qed
  then have "fd_lookup k' = fd_lookup k" by (simp add: fun_eq_iff)
  with room closed show ?thesis by blast
qed

theorem Room_failure_witness:
  "valid_RoomsRequest net_uts \<and>
   (\<exists>k'. Room thread0 kernel_eperm net_uts = (ErrorResponse ''net:operation not permitted'', k')
      \<and> Sys_close 4 \<in> set (drop (length (trace kernel_eperm_after_units)) (trace k'))
      \<and> fd_lookup k' 4 = None \<and> fd_lookup k' = fd_lookup kernel_eperm)"
proof -
  have h3: "\<exists>t err. (t, Inl err) \<in> set [(NS_net, Inl ''operation not permitted''), (NS_uts, Inr (4::int))]"
    by auto
  from Room_failure [OF net_uts_valid net_uts_units_eperm h3] net_uts_valid
  show ?thesis by simp
qed

section \<open>Requests are validated first\<close>

lemma outside_mask_iff: "(w::64 word) AND NOT m \<noteq> 0 \<longleftrightarrow> (\<exists>n. bit w n \<and> \<not> bit m n)"
proof
  assume "w AND NOT m \<noteq> 0"
  then show "\<exists>n. bit w n \<and> \<not> bit m n"
    by (auto simp: bit_eq_iff bit_simps)
next
  assume "\<exists>n. bit w n \<and> \<not> bit m n"
  then obtain n where n: "bit w n" "\<not> bit m n" by blast
  then have "n < 64" using bit_imp_le_length [of w n] by simp
  with n have "bit (w AND NOT m) n" by (simp add: bit_simps)
  then show "w AND NOT m \<noteq> 0" by auto
qed

text \<open>
  Claim C1. A SubspaceRequest whose selection is empty or has a bit set that is neither
  \<open>CLONE_NEWUSER\<close> nor \<open>CLONE_NEWPID\<close>, and a RoomsRequest whose selection is empty
  or has a bit set that is none of the six flat flags, is answered by an ErrorResponse, and
  the kernel is returned as it was: no system call has been logged, no descriptor created.
\<close>

theorem invalid_requests_rejected:
  "(SubspaceRequest.Spaces sreq = 0 \<or>
      (\<exists>n. bit (SubspaceRequest.Spaces sreq) n \<and> \<not> bit (CLONE_NEWUSER OR CLONE_NEWPID) n)
    \<longrightarrow> (\<exists>reason. Subspace thr k sreq = (Some (Return (ErrorResponse reason)), k)))
   \<and> (RoomsRequest.Spaces rreq = 0 \<or>
      (\<exists>n. bit (RoomsRequest.Spaces rreq) n \<and> \<not> bit validSpaces n)
    \<longrightarrow> (\<exists>reason. Room worker k rreq = (ErrorResponse reason, k)))"
  unfolding outside_mask_iff [symmetric]
  by (auto simp: Subspace_def Room_def)

theorem invalid_requests_rejected_witness:
  "SubspaceRequest.Spaces no_spaces = 0
   \<and> Subspace thread0 kernel0 no_spaces = (Some (Return (ErrorResponse ''no space requested'')), kernel0)
   \<and> bit (SubspaceRequest.Spaces net_in_subspace) 30 \<and> \<not> bit (CLONE_NEWUSER OR CLONE_NEWPID) 30
   \<and> (\<exists>reason. Subspace thread0 kernel0 net_in_subspace = (Some (Return (ErrorResponse reason)), kernel0))
   \<and> bit (RoomsRequest.Spaces pid_in_rooms) 29 \<and> \<not> bit validSpaces 29
   \<and> (\<exists>reason. Room thread0 kernel0 pid_in_rooms = (ErrorResponse reason, kernel0))"
proof -
  have b1: "bit (SubspaceRequest.Spaces net_in_subspace) 30 \<and> \<not> bit (CLONE_NEWUSER OR CLONE_NEWPID) 30"
    by (simp add: net_in_subspace_def flag_defs bit_simps)
  have b2: "bit (RoomsRequest.Spaces pid_in_rooms) 29 \<and> \<not> bit validSpaces 29"
    by (simp add: pid_in_rooms_def validSpaces_def flag_defs bit_simps)
  have e1: "Subspace thread0 kernel0 no_spaces = (Some (Return (ErrorResponse ''no space requested'')), kernel0)"
    by (simp add: Subspace_def no_spaces_def)
  from invalid_requests_rejected [of net_in_subspace thread0 kernel0 pid_in_rooms thread0] b1 b2 e1
  show ?thesis by (simp add: no_spaces_def) blast
qed

section \<open>Decoding received descriptors\<close>

lemma sys_ioctl_nstype_eq:
  "sys_ioctl_nstype fd k =
     ((case nstype_of k fd of Some t \<Rightarrow> Inr t
       | None \<Rightarrow> Inl (if fd_lookup k fd = None then ''bad file descriptor''
                       else ''inappropriate ioctl for device'')),
      log_call (Sys_ioctl_nstype fd) k)"
  by (auto simp: sys_ioctl_nstype_def nstype_of_def split: option.splits fobj.splits)

lemma nstype_of_log_call [simp]: "nstype_of (log_call c k) = nstype_of k"
  by (simp add: nstype_of_def fun_eq_iff)

lemma nstype_of_sys_close: "nstype_of (sys_close fd k) x = (if x = fd then None else nstype_of k x)"
  by (simp add: nstype_of_def fd_lookup_sys_close)

lemma trace_log_sys_close: "trace (sys_close fd (log_call c k)) = trace k @ [c, Sys_close fd]"
  by simp

text \<open>Closing a descriptor of an unwanted type changes no wanted type and no call made later.\<close>

lemma decode_calls_close:
  "nstype_of k fd \<notin> Some ` W \<Longrightarrow> decode_calls W (sys_close fd k) = decode_calls W k"
  by (auto simp: decode_calls_def nstype_of_sys_close fun_eq_iff)

lemma last_of_type_close:
  "nstype_of k fd \<noteq> Some t \<Longrightarrow> last_of_type (sys_close fd k) t fds = last_of_type k t fds"
proof -
  have "(\<lambda>x. nstype_of (sys_close fd k) x = Some t) = (\<lambda>x. nstype_of k x = Some t)"
    if "nstype_of k fd \<noteq> Some t"
    using that by (auto simp: nstype_of_sys_close fun_eq_iff)
  then show "nstype_of k fd \<noteq> Some t \<Longrightarrow> ?thesis" by (simp add: last_of_type_def)
qed

lemma find_snoc:
  "find P (xs @ [x]) = (case find P xs of Some y \<Rightarrow> Some y | None \<Rightarrow> if P x then Some x else None)"
  by (induction xs) auto

lemma last_of_type_Cons:
  "last_of_type k t (fd # fds) =
     (case last_of_type k t fds of Some x \<Rightarrow> Some x
      | None \<Rightarrow> if nstype_of k fd = Some t then Some fd else None)"
  by (simp add: last_of_type_def find_snoc)

lemma last_of_type_log_call [simp]: "last_of_type (log_call c k) = last_of_type k"
  by (simp add: last_of_type_def fun_eq_iff)

lemma decode_calls_log_call [simp]: "decode_calls W (log_call c k) = decode_calls W k"
  by (simp add: decode_calls_def fun_eq_iff)

lemma rooms_decoded_Nil: "rooms_decoded [] s k s k"
  by (simp add: rooms_decoded_def last_of_type_def)

lemma rooms_decoded_keep:
  assumes t: "nstype_of k fd = Some t" "t \<in> set flat_types"
    and rest: "rooms_decoded fds (room_upd t fd s) (log_call (Sys_ioctl_nstype fd) k) s' k'"
  shows "rooms_decoded (fd # fds) s k s' k'"
proof -
  have calls: "decode_calls (set flat_types) k fd = [Sys_ioctl_nstype fd]"
    using t by (simp add: decode_calls_def)
  have look: "fd_lookup k' x =
      (if x \<in> set (fd # fds) \<and> nstype_of k x \<notin> Some ` set flat_types then None else fd_lookup k x)" for x
    using rest t by (auto simp: rooms_decoded_def)
  have field: "room_fd u s' = (case last_of_type k u (fd # fds) of Some x \<Rightarrow> x | None \<Rightarrow> room_fd u s)"
    if "u \<in> set flat_types" for u
    using rest t that by (auto simp: rooms_decoded_def last_of_type_Cons room_fd_upd split: option.splits)
  show ?thesis
    unfolding rooms_decoded_def using rest calls look field by (simp add: rooms_decoded_def)
qed

lemma rooms_decoded_drop:
  assumes t: "nstype_of k fd \<notin> Some ` set flat_types"
    and rest: "rooms_decoded fds s (sys_close fd (log_call (Sys_ioctl_nstype fd) k)) s' k'"
  shows "rooms_decoded (fd # fds) s k s' k'"
proof -
  let ?k1 = "sys_close fd (log_call (Sys_ioctl_nstype fd) k)"
  have nt: "nstype_of (log_call (Sys_ioctl_nstype fd) k) fd \<notin> Some ` set flat_types"
    using t by simp
  have calls: "decode_calls (set flat_types) ?k1 = decode_calls (set flat_types) k"
    using decode_calls_close [OF nt] by simp
  have calls1: "decode_calls (set flat_types) k fd = [Sys_ioctl_nstype fd, Sys_close fd]"
    using t by (simp add: decode_calls_def)
  have ty: "nstype_of ?k1 x = (if x = fd then None else nstype_of k x)" for x
    by (simp add: nstype_of_sys_close)
  have look: "fd_lookup k' x =
      (if x \<in> set (fd # fds) \<and> nstype_of k x \<notin> Some ` set flat_types then None else fd_lookup k x)" for x
    using rest t by (auto simp: rooms_decoded_def ty fd_lookup_sys_close)
  have last: "last_of_type ?k1 u fds = last_of_type k u fds" if "u \<in> set flat_types" for u
  proof -
    have "nstype_of (log_call (Sys_ioctl_nstype fd) k) fd \<noteq> Some u" using t that by auto
    from last_of_type_close [OF this] show ?thesis by simp
  qed
  have field: "room_fd u s' = (case last_of_type k u (fd # fds) of Some x \<Rightarrow> x | None \<Rightarrow> room_fd u s)"
    if "u \<in> set flat_types" for u
  proof -
    have "nstype_of k fd \<noteq> Some u" using t that by auto
    then show ?thesis
      using rest that last [OF that] by (auto simp: rooms_decoded_def last_of_type_Cons split: option.splits)
  qed
  have tr: "trace k' = trace k @ concat (map (decode_calls (set flat_types) k) (fd # fds))"
    using rest by (simp add: rooms_decoded_def calls calls1)
  show ?thesis
    unfolding rooms_decoded_def using tr look field by simp
qed

lemma RoomsResponse_DecodeFds_step:
  "RoomsResponse_DecodeFds (fd # fds) s k =
     (case nstype_of k fd of
        Some t \<Rightarrow>
          if t \<in> set flat_types
          then RoomsResponse_DecodeFds fds (room_upd t fd s) (log_call (Sys_ioctl_nstype fd) k)
          else RoomsResponse_DecodeFds fds s (sys_close fd (log_call (Sys_ioctl_nstype fd) k))
      | None \<Rightarrow> RoomsResponse_DecodeFds fds s (sys_close fd (log_call (Sys_ioctl_nstype fd) k)))"
  by (simp add: sys_ioctl_nstype_eq flat_types_def split: option.splits nstype.splits)

lemma RoomsResponse_DecodeFds_decoded:
  "RoomsResponse_DecodeFds fds s k = (s', k') \<Longrightarrow> rooms_decoded fds s k s' k'"
proof (induction fds arbitrary: s k)
  case Nil
  then show ?case by (simp add: rooms_decoded_Nil)
next
  case (Cons fd fds)
  note step = Cons.prems [unfolded RoomsResponse_DecodeFds_step]
  show ?case
  proof (cases "nstype_of k fd")
    case None
    then have "RoomsResponse_DecodeFds fds s (sys_close fd (log_call (Sys_ioctl_nstype fd) k)) = (s', k')"
      using step by simp
    from rooms_decoded_drop [OF _ Cons.IH [OF this]] None show ?thesis by simp
  next
    case (Some t)
    show ?thesis
    proof (cases "t \<in> set flat_types")
      case True
      then have "RoomsResponse_DecodeFds fds (room_upd t fd s) (log_call (Sys_ioctl_nstype fd) k) = (s', k')"
        using step Some by simp
      from rooms_decoded_keep [OF Some True Cons.IH [OF this]] show ?thesis .
    next
      case False
      then have "RoomsResponse_DecodeFds fds s (sys_close fd (log_call (Sys_ioctl_nstype fd) k)) = (s', k')"
        using step Some by simp
      from rooms_decoded_drop [OF _ Cons.IH [OF this]] Some False show ?thesis by auto
    qed
  qed
qed

lemma subspace_decoded_Nil: "subspace_decoded [] s k s k"
  by (simp add: subspace_decoded_def last_of_type_def)

lemma subspace_decoded_keep:
  assumes t: "nstype_of k fd = Some t" "t = NS_user \<or> t = NS_pid"
    and rest: "subspace_decoded fds (if t = NS_user then s\<lparr>User := fd\<rparr> else s\<lparr>PID := fd\<rparr>)
       (log_call (Sys_ioctl_nstype fd) k) s' k'"
  shows "subspace_decoded (fd # fds) s k s' k'"
proof -
  have calls: "decode_calls {NS_user, NS_pid} k fd = [Sys_ioctl_nstype fd]"
    using t by (auto simp: decode_calls_def)
  have look: "fd_lookup k' x =
      (if x \<in> set (fd # fds) \<and> nstype_of k x \<notin> Some ` {NS_user, NS_pid} then None else fd_lookup k x)" for x
    using rest t by (auto simp: subspace_decoded_def)
  have field: "User s' = (case last_of_type k NS_user (fd # fds) of Some x \<Rightarrow> x | None \<Rightarrow> User s)"
    "PID s' = (case last_of_type k NS_pid (fd # fds) of Some x \<Rightarrow> x | None \<Rightarrow> PID s)"
    "Conn s' = Conn s"
    using rest t by (auto simp: subspace_decoded_def last_of_type_Cons split: option.splits)
  show ?thesis
    unfolding subspace_decoded_def using rest calls look field by (simp add: subspace_decoded_def)
qed

lemma subspace_decoded_drop:
  assumes t: "nstype_of k fd \<notin> Some ` {NS_user, NS_pid}"
    and rest: "subspace_decoded fds s (sys_close fd (log_call (Sys_ioctl_nstype fd) k)) s' k'"
  shows "subspace_decoded (fd # fds) s k s' k'"
proof -
  let ?k1 = "sys_close fd (log_call (Sys_ioctl_nstype fd) k)"
  have nt: "nstype_of (log_call (Sys_ioctl_nstype fd) k) fd \<notin> Some ` {NS_user, NS_pid}"
    using t by simp
  have calls: "decode_calls {NS_user, NS_pid} ?k1 = decode_calls {NS_user, NS_pid} k"
    using decode_calls_close [OF nt] by simp
  have calls1: "decode_calls {NS_user, NS_pid} k fd = [Sys_ioctl_nstype fd, Sys_close fd]"
    using t by (simp add: decode_calls_def)
  have ty: "nstype_of ?k1 x = (if x = fd then None else nstype_of k x)" for x
    by (simp add: nstype_of_sys_close)
  have look: "fd_lookup k' x =
      (if x \<in> set (fd # fds) \<and> nstype_of k x \<notin> Some ` {NS_user, NS_pid} then None else fd_lookup k x)" for x
    using rest t by (auto simp: subspace_decoded_def ty fd_lookup_sys_close)
  have last: "last_of_type ?k1 u fds = last_of_type k u fds" if "u = NS_user \<or> u = NS_pid" for u
  proof -
    have "nstype_of (log_call (Sys_ioctl_nstype fd) k) fd \<noteq> Some u" using t that by auto
    from last_of_type_close [OF this] show ?thesis by simp
  qed
  have ne: "nstype_of k fd \<noteq> Some NS_user" "nstype_of k fd \<noteq> Some NS_pid" using t by auto
  have field: "User s' = (case last_of_type k NS_user (fd # fds) of Some x \<Rightarrow> x | None \<Rightarrow> User s)"
    "PID s' = (case last_of_type k NS_pid (fd # fds) of Some x \<Rightarrow> x | None \<Rightarrow> PID s)"
    "Conn s' = Conn s"
    using rest ne last [of NS_user] last [of NS_pid]
    by (auto simp: subspace_decoded_def last_of_type_Cons split: option.splits)
  have tr: "trace k' = trace k @ concat (map (decode_calls {NS_user, NS_pid} k) (fd # fds))"
    using rest by (simp add: subspace_decoded_def calls calls1)
  show ?thesis
    unfolding subspace_decoded_def using tr look field by simp
qed

lemma SubspaceResponse_DecodeFds_rest_step:
  "SubspaceResponse_DecodeFds_rest (fd # fds) s k =
     (case nstype_of k fd of
        Some t \<Rightarrow>
          if t = NS_user \<or> t = NS_pid
          then SubspaceResponse_DecodeFds_rest fds (if t = NS_user then s\<lparr>User := fd\<rparr> else s\<lparr>PID := fd\<rparr>)
                 (log_call (Sys_ioctl_nstype fd) k)
          else SubspaceResponse_DecodeFds_rest fds s (sys_close fd (log_call (Sys_ioctl_nstype fd) k))
      | None \<Rightarrow> SubspaceResponse_DecodeFds_rest fds s (sys_close fd (log_call (Sys_ioctl_nstype fd) k)))"
  by (simp add: sys_ioctl_nstype_eq split: option.splits nstype.splits)

lemma SubspaceResponse_DecodeFds_rest_decoded:
  "SubspaceResponse_DecodeFds_rest fds s k = (s', k') \<Longrightarrow> subspace_decoded fds s k s' k'"
proof (induction fds arbitrary: s k)
  case Nil
  then show ?case by (simp add: subspace_decoded_Nil)
next
  case (Cons fd fds)
  note step = Cons.prems [unfolded SubspaceResponse_DecodeFds_rest_step]
  show ?case
  proof (cases "nstype_of k fd")
    case None
    then have "SubspaceResponse_DecodeFds_rest fds s (sys_close fd (log_call (Sys_ioctl_nstype fd) k)) = (s', k')"
      using step by simp
    from subspace_decoded_drop [OF _ Cons.IH [OF this]] None show ?thesis by simp
  next
    case (Some t)
    show ?thesis
    proof (cases "t = NS_user \<or> t = NS_pid")
      case True
      then have "SubspaceResponse_DecodeFds_rest fds (if t = NS_user then s\<lparr>User := fd\<rparr> else s\<lparr>PID := fd\<rparr>)
          (log_call (Sys_ioctl_nstype fd) k) = (s', k')"
        using step Some by simp
      from subspace_decoded_keep [OF Some True Cons.IH [OF this]] show ?thesis .
    next
      case False
      then have "SubspaceResponse_DecodeFds_rest fds s (sys_close fd (log_call (Sys_ioctl_nstype fd) k)) = (s', k')"
        using step Some by simp
      from subspace_decoded_drop [OF _ Cons.IH [OF this]] Some False show ?thesis by auto
    qed
  qed
qed

lemmas table_defs = fd_lookup_def slot_def nstype_of_def

text \<open>
  Claim C4, as the code has it. Decoding never fails for a RoomsResponse, and never for a
  SubspaceResponse when at least one descriptor was received. Each descriptor handed to
  \<open>RoomsResponse.DecodeFds\<close>, and each but the first handed to
  \<open>SubspaceResponse.DecodeFds\<close>, is asked for the type of namespace it references; if
  that is not a type the response has a field for (or the descriptor references no
  namespace at all), the descriptor is closed right after the query and no field is
  touched; otherwise it is stored in the field of its type. A field with no descriptor of
  its type stays as it was. The first descriptor of a SubspaceResponse goes to \<open>Conn\<close>
  without any query.
\<close>

theorem DecodeFds_by_type:
  "(case RoomsResponse_DecodeFds fds r k of (r', k') \<Rightarrow> rooms_decoded fds r k r' k')
   \<and> (\<exists>s' k'. SubspaceResponse_DecodeFds (c # fds) s k = Return (s', k')
         \<and> Conn s' = c \<and> subspace_decoded fds (s\<lparr>Conn := c\<rparr>) k s' k')"
proof -
  obtain r' k' where r: "RoomsResponse_DecodeFds fds r k = (r', k')"
    by (cases "RoomsResponse_DecodeFds fds r k")
  obtain s' k'' where s: "SubspaceResponse_DecodeFds_rest fds (s\<lparr>Conn := c\<rparr>) k = (s', k'')"
    by (cases "SubspaceResponse_DecodeFds_rest fds (s\<lparr>Conn := c\<rparr>) k")
  note d = SubspaceResponse_DecodeFds_rest_decoded [OF s]
  then have "Conn s' = c" by (simp add: subspace_decoded_def)
  with r s d RoomsResponse_DecodeFds_decoded [OF r] show ?thesis
    by (simp add: SubspaceResponse_DecodeFds_def)
qed

theorem DecodeFds_by_type_witness:
  "(\<exists>r' k'. RoomsResponse_DecodeFds [4, 3] no_rooms kernel_fds = (r', k')
      \<and> trace k' = [Sys_ioctl_nstype 4, Sys_close 4, Sys_ioctl_nstype 3]
      \<and> fd_lookup k' 4 = None \<and> fd_lookup k' 3 = Some (NsHandle NS_net 7)
      \<and> Net r' = 3 \<and> Cgroup r' = 0 \<and> IPC r' = 0 \<and> Mnt r' = 0 \<and> Time r' = 0 \<and> UTS r' = 0)
   \<and> (\<exists>s' k'. SubspaceResponse_DecodeFds [6, 4, 5] no_subspace kernel_fds = Return (s', k')
      \<and> trace k' = [Sys_ioctl_nstype 4, Sys_close 4, Sys_ioctl_nstype 5]
      \<and> fd_lookup k' 4 = None \<and> fd_lookup k' 5 = Some (NsHandle NS_user 8)
      \<and> Conn s' = 6 \<and> User s' = 5 \<and> PID s' = 0)"
proof -
  have ty: "nstype_of kernel_fds 3 = Some NS_net" "nstype_of kernel_fds 4 = None"
    "nstype_of kernel_fds 5 = Some NS_user"
    by (simp_all add: kernel_fds_def table_defs)
  have lk: "fd_lookup kernel_fds 3 = Some (NsHandle NS_net 7)"
    "fd_lookup kernel_fds 5 = Some (NsHandle NS_user 8)"
    by (simp_all add: kernel_fds_def table_defs)
  have tr: "trace kernel_fds = []" by (simp add: kernel_fds_def)
  from DecodeFds_by_type [of "[4, 3]" no_rooms kernel_fds 6 no_subspace]
    DecodeFds_by_type [of "[4, 5]" no_rooms kernel_fds 6 no_subspace]
  show ?thesis
    unfolding rooms_decoded_def subspace_decoded_def
    by (auto simp: ty lk tr decode_calls_def last_of_type_def flat_types_def no_rooms_def no_subspace_def)
qed

text \<open>
  The claim as stated fails for the first descriptor of a SubspaceResponse: a handle of a
  network namespace is neither queried nor closed, it becomes \<open>Conn\<close>.
\<close>

theorem DecodeFds_first_handle_counterexample:
  "nstype_of kernel_fds 3 = Some NS_net
   \<and> SubspaceResponse_DecodeFds [3] no_subspace kernel_fds =
       Return (\<lparr>Conn = 3, User = 0, PID = 0\<rparr>, kernel_fds)
   \<and> fd_lookup kernel_fds 3 = Some (NsHandle NS_net 7)"
  by (simp add: SubspaceResponse_DecodeFds_def no_subspace_def kernel_fds_def table_defs)

text \<open>
  Claim C9. \<open>SubspaceResponse.DecodeFds\<close> panics on the empty list, with an index out
  of range, and returns for every other list; \<open>RoomsResponse.DecodeFds\<close> returns the
  response unchanged for the empty list.
\<close>

theorem SubspaceResponse_DecodeFds_empty:
  "SubspaceResponse_DecodeFds [] s k = Panic ''runtime error: index out of range [0] with length 0''
   \<and> ((\<exists>v. SubspaceResponse_DecodeFds fds s k = Return v) \<longleftrightarrow> fds \<noteq> [])
   \<and> RoomsResponse_DecodeFds [] r k = (r, k)"
  by (cases fds) (simp_all add: SubspaceResponse_DecodeFds_def)

section \<open>More handles than the client makes room for\<close>

lemma all_flat_valid: "valid_RoomsRequest all_flat"
  by (simp add: valid_RoomsRequest_def all_flat_def validSpaces_def flag_defs)

lemma all_flat_requested: "t \<in> set flat_types \<Longrightarrow> requested all_flat t"
  by (auto simp: requested_def all_flat_def validSpaces_def flag_defs flat_types_def)

lemma RoomsResponse_EncodeFds_all:
  assumes "0 < Cgroup s" "0 < IPC s" "0 < Mnt s" "0 < Net s" "0 < Time s" "0 < UTS s"
  shows "RoomsResponse_EncodeFds s = ([Cgroup s, IPC s, Mnt s, Net s, Time s, UTS s], no_rooms)"
  using assms by (simp add: RoomsResponse_EncodeFds_def borrow_def no_rooms_def)

lemma all_flat_types: "filter (requested all_flat) flat_types = flat_types"
  using all_flat_requested by (simp add: filter_id_conv)

lemma all_flat_units:
  "run_units thread0 (filter (requested all_flat) flat_types) kernel0 =
     ([(NS_cgroup, Inr 4), (NS_ipc, Inr 5), (NS_mnt, Inr 6), (NS_net, Inr 7), (NS_time, Inr 8),
       (NS_uts, Inr 9)], kernel0_all_flat)"
  unfolding all_flat_types kernel0_all_flat_def
  by (simp add: flat_types_def kernel0_def thread0_def kernel_defs)

text \<open>The room that \<open>Client.do\<close> makes, in descriptors.\<close>

lemma Client_do_room:
  "scm_max_fds a (CmsgSpace a (Client_do_maxfds * 4)) = (case a of Arch32 \<Rightarrow> 3 | Arch64 \<Rightarrow> 4)"
  by (cases a)
    (simp_all add: scm_max_fds_def CmsgSpace_def cmsgAlignOf_def SizeofCmsghdr_def SizeofPtr_def
      Client_do_maxfds_def)

lemma install_all_slots:
  "install_all objs tab = (fds, tab') \<Longrightarrow>
     length fds = length objs
     \<and> (\<forall>i. slot tab i \<noteq> None \<longrightarrow> slot tab' i = slot tab i)
     \<and> map (tab_lookup tab') fds = map Some objs"
proof (induction objs arbitrary: tab fds)
  case Nil
  then show ?case by simp
next
  case (Cons obj objs)
  from Cons.prems obtain fds1 where
    r: "install_all objs (install obj tab) = (fds1, tab')" and fds: "fds = int (free_slot tab) # fds1"
    by (auto split: prod.splits)
  from Cons.IH [OF r] have len: "length fds1 = length objs"
    and keep: "\<forall>i. slot (install obj tab) i \<noteq> None \<longrightarrow> slot tab' i = slot (install obj tab) i"
    and got: "map (tab_lookup tab') fds1 = map Some objs"
    by blast+
  have "slot tab' (free_slot tab) = Some obj"
    using keep by (simp add: slot_install)
  then have first: "tab_lookup tab' (int (free_slot tab)) = Some obj"
    by (simp add: tab_lookup_def)
  have "slot tab' i = slot tab i" if "slot tab i \<noteq> None" for i
  proof -
    from that have "i \<noteq> free_slot tab" using slot_free_slot [of tab] by auto
    then have "slot (install obj tab) i = slot tab i" by (simp add: slot_install)
    with keep that show ?thesis by simp
  qed
  with len got first show ?case by (simp add: fds)
qed

lemma sys_recvmsg_Inr:
  assumes "sys_recvmsg a controllen objs k = (Inr fds, k')"
  shows "length fds = min (length objs) (scm_max_fds a controllen)"
    and "map (fd_lookup k') fds = map Some (take (scm_max_fds a controllen) objs)"
proof -
  from assms obtain tab where
    i: "install_all (take (scm_max_fds a controllen) objs) (fdtab k) = (fds, tab)"
    and k': "fdtab k' = tab"
    by (auto simp: sys_recvmsg_def log_call_def split: option.splits prod.splits)
  from install_all_slots [OF i] show "length fds = min (length objs) (scm_max_fds a controllen)"
    by simp
  from install_all_slots [OF i] show "map (fd_lookup k') fds = map Some (take (scm_max_fds a controllen) objs)"
    by (simp add: fd_lookup_tab k')
qed

lemma rights_of_Some:
  "rights_of k fds = Some objs \<Longrightarrow> map (fd_lookup k) fds = map Some objs"
  by (induction fds arbitrary: objs) (auto split: option.splits)

lemma SendWithFds_Inr:
  "SendWithFds fds k = (Inr objs, k') \<Longrightarrow> map (fd_lookup k) fds = map Some objs"
  by (auto simp: SendWithFds_def split: option.splits dest: rights_of_Some)

lemma nstype_of_lookup: "fd_lookup k fd = Some (NsHandle t n) \<Longrightarrow> nstype_of k fd = Some t"
  by (simp add: nstype_of_def)


lemma nstype_of_obj_type: "fd_lookup k fd = Some obj \<Longrightarrow> nstype_of k fd = obj_type obj"
  by (simp add: nstype_of_def obj_type_def)

lemma map_nstype_of:
  "map (fd_lookup k) fds = map Some objs \<Longrightarrow> map (nstype_of k) fds = map obj_type objs"
proof (induction fds arbitrary: objs)
  case Nil
  then show ?case by simp
next
  case (Cons fd fds)
  then obtain obj objs1 where "objs = obj # objs1" "fd_lookup k fd = Some obj"
    "map (fd_lookup k) fds = map Some objs1"
    by (cases objs) auto
  with Cons.IH show ?case by (simp add: nstype_of_obj_type)
qed

text \<open>
  Claim C8. \<open>Client.do\<close> receives into a buffer for the control message of
  \<open>unix.CmsgSpace(3*4)\<close> bytes. A message received with it brings as many descriptors as
  were sent, up to three where a pointer has 4 bytes and up to four where it has 8, the
  rounding of \<open>CmsgSpace\<close> making room for one more than asked. The request for all six
  flat types is valid, and when all its units succeed the response has six positive
  handles, all of which \<open>EncodeFds\<close> moves into the list that is sent with the message. Of
  these six the client receives the first three or four, in the order of the fields, and
  the others are dropped.
\<close>

theorem rooms_handles_exceed_receive_limit:
  assumes "run_units worker (filter (requested all_flat) flat_types) k = (rs, k1)"
    and "\<forall>u \<in> set rs. \<exists>fd. snd u = Inr fd"
    and "SendWithFds (fst (EncodeFds (fst (Room worker k all_flat)))) k1 = (Inr objs, k2)"
    and "ReceiveWithFds a Client_do_maxfds objs kc = (Inr fds, kc')"
  shows "(\<forall>objs0 kc0 fds0 kc1. ReceiveWithFds a Client_do_maxfds objs0 kc0 = (Inr fds0, kc1) \<longrightarrow>
          length fds0 = min (length objs0) (case a of Arch32 \<Rightarrow> 3 | Arch64 \<Rightarrow> 4))
     \<and> valid_RoomsRequest all_flat
     \<and> (\<exists>resp. Room worker k all_flat = (RoomsResp resp, k1)
          \<and> fst (EncodeFds (RoomsResp resp)) =
              [Cgroup resp, IPC resp, Mnt resp, Net resp, Time resp, UTS resp])
     \<and> length objs = 6
     \<and> length fds = (case a of Arch32 \<Rightarrow> 3 | Arch64 \<Rightarrow> 4)
     \<and> map (fd_lookup kc') fds = map Some (take (length fds) objs)
     \<and> map (nstype_of kc') fds = map Some (take (length fds) flat_types)
     \<and> length fds < length objs"
proof -
  from Room_success_aux [OF all_flat_valid assms(1,2)] obtain resp where
    r: "Room worker k all_flat = (RoomsResp resp, k1)"
    and f: "\<forall>t \<in> set flat_types.
         if requested all_flat t
         then 0 < room_fd t resp \<and> (\<exists>n. fd_lookup k1 (room_fd t resp) = Some (NsHandle t n))
         else room_fd t resp = 0"
    by blast
  have h: "0 < room_fd t resp \<and> nstype_of k1 (room_fd t resp) = Some t" if "t \<in> set flat_types" for t
  proof -
    from f that have "if requested all_flat t
         then 0 < room_fd t resp \<and> (\<exists>n. fd_lookup k1 (room_fd t resp) = Some (NsHandle t n))
         else room_fd t resp = 0"
      by (rule bspec)
    with all_flat_requested [OF that] obtain n where
      "0 < room_fd t resp" "fd_lookup k1 (room_fd t resp) = Some (NsHandle t n)"
      by auto
    then show ?thesis by (simp add: nstype_of_def)
  qed
  from h [of NS_cgroup] h [of NS_ipc] h [of NS_mnt] h [of NS_net] h [of NS_time] h [of NS_uts]
  have pos: "0 < Cgroup resp" "0 < IPC resp" "0 < Mnt resp" "0 < Net resp" "0 < Time resp" "0 < UTS resp"
    and ty: "map (nstype_of k1) [Cgroup resp, IPC resp, Mnt resp, Net resp, Time resp, UTS resp]
      = map Some flat_types"
    by (simp_all add: flat_types_def)
  have sent: "fst (EncodeFds (RoomsResp resp)) = [Cgroup resp, IPC resp, Mnt resp, Net resp, Time resp, UTS resp]"
    by (simp add: EncodeFds_def RoomsResponse_EncodeFds_all [OF pos])
  from assms(3) have "map (fd_lookup k1) [Cgroup resp, IPC resp, Mnt resp, Net resp, Time resp, UTS resp]
      = map Some objs"
    unfolding r fst_conv sent by (rule SendWithFds_Inr)
  then have len: "length objs = 6" and types: "map obj_type objs = map Some flat_types"
    using ty map_nstype_of [of k1 "[Cgroup resp, IPC resp, Mnt resp, Net resp, Time resp, UTS resp]" objs]
      map_eq_imp_length_eq [of "fd_lookup k1" "[Cgroup resp, IPC resp, Mnt resp, Net resp, Time resp, UTS resp]" Some objs]
    by simp_all
  note rc = sys_recvmsg_Inr [OF assms(4) [unfolded ReceiveWithFds_def], unfolded Client_do_room]
  have n: "length fds = (case a of Arch32 \<Rightarrow> 3 | Arch64 \<Rightarrow> 4)"
    using rc(1) len by (cases a) simp_all
  have got: "map (fd_lookup kc') fds = map Some (take (length fds) objs)"
    using rc(2) n by simp
  have "map (nstype_of kc') fds = map obj_type (take (length fds) objs)"
    using got by (rule map_nstype_of)
  also have "\<dots> = map Some (take (length fds) flat_types)"
    using types by (simp add: take_map [symmetric])
  finally have got_ty: "map (nstype_of kc') fds = map Some (take (length fds) flat_types)" .
  have less: "length fds < length objs" using n len by (cases a) simp_all
  from r sent have "\<exists>resp. Room worker k all_flat = (RoomsResp resp, k1)
          \<and> fst (EncodeFds (RoomsResp resp)) =
              [Cgroup resp, IPC resp, Mnt resp, Net resp, Time resp, UTS resp]"
    by blast
  moreover have "\<forall>objs0 kc0 fds0 kc1. ReceiveWithFds a Client_do_maxfds objs0 kc0 = (Inr fds0, kc1) \<longrightarrow>
          length fds0 = min (length objs0) (case a of Arch32 \<Rightarrow> 3 | Arch64 \<Rightarrow> 4)"
    using sys_recvmsg_Inr(1) [of a "CmsgSpace a (Client_do_maxfds * 4)"]
    unfolding ReceiveWithFds_def Client_do_room by blast
  ultimately show ?thesis using all_flat_valid len n got got_ty less by (intro conjI)
qed


lemmas uds_defs = ReceiveWithFds_def sys_recvmsg_def SendWithFds_def Client_do_maxfds_def CmsgSpace_def
  cmsgAlignOf_def SizeofCmsghdr_def SizeofPtr_def scm_max_fds_def

lemma all_flat_Room: "Room thread0 kernel0 all_flat =
    (RoomsResp \<lparr>Cgroup = 4, IPC = 5, Mnt = 6, Net = 7, Time = 8, UTS = 9\<rparr>, kernel0_all_flat)"
  using Room_result [OF all_flat_valid all_flat_units] by (simp add: no_rooms_def)

lemma all_flat_sent:
  "fst (SendWithFds (fst (EncodeFds (fst (Room thread0 kernel0 all_flat)))) kernel0_all_flat) = Inr six_handles"
  unfolding all_flat_Room
  by (simp add: EncodeFds_def RoomsResponse_EncodeFds_def borrow_def uds_defs six_handles_def
      kernel0_all_flat_def flat_types_def kernel0_def thread0_def kernel_defs)

lemma six_handles_received:
  "fst (ReceiveWithFds Arch64 Client_do_maxfds six_handles kernel0) = Inr [3, 4, 5, 6]"
  by (simp add: uds_defs six_handles_def kernel0_def kernel_defs)

lemma six_handles_received32:
  "fst (ReceiveWithFds Arch32 Client_do_maxfds six_handles kernel0) = Inr [3, 4, 5]"
  by (simp add: uds_defs six_handles_def kernel0_def kernel_defs)

theorem rooms_handles_exceed_receive_limit_witness:
  "run_units thread0 (filter (requested all_flat) flat_types) kernel0 =
     ([(NS_cgroup, Inr 4), (NS_ipc, Inr 5), (NS_mnt, Inr 6), (NS_net, Inr 7), (NS_time, Inr 8),
       (NS_uts, Inr 9)], kernel0_all_flat)
   \<and> fst (SendWithFds (fst (EncodeFds (fst (Room thread0 kernel0 all_flat)))) kernel0_all_flat) = Inr six_handles
   \<and> length [3, 4, 5, 6 :: int] = min (length six_handles) 4
   \<and> valid_RoomsRequest all_flat
   \<and> (\<exists>resp. Room thread0 kernel0 all_flat = (RoomsResp resp, kernel0_all_flat)
          \<and> fst (EncodeFds (RoomsResp resp)) =
              [Cgroup resp, IPC resp, Mnt resp, Net resp, Time resp, UTS resp])
   \<and> length six_handles = 6
   \<and> (\<exists>kc'. ReceiveWithFds Arch64 Client_do_maxfds six_handles kernel0 = (Inr [3, 4, 5, 6], kc')
          \<and> map (fd_lookup kc') [3, 4, 5, 6] = map Some four_handles
          \<and> map (nstype_of kc') [3, 4, 5, 6] = map Some [NS_cgroup, NS_ipc, NS_mnt, NS_net])
   \<and> (\<exists>kc'. ReceiveWithFds Arch32 Client_do_maxfds six_handles kernel0 = (Inr [3, 4, 5], kc')
          \<and> map (nstype_of kc') [3, 4, 5] = map Some [NS_cgroup, NS_ipc, NS_mnt])"
proof -
  have h: "\<forall>u \<in> set [(NS_cgroup, Inr 4), (NS_ipc, Inr 5), (NS_mnt, Inr 6), (NS_net, Inr 7),
      (NS_time, Inr 8), (NS_uts, Inr (9::int))]. \<exists>fd. snd u = (Inr fd :: string + int)"
    by simp
  obtain k2 where s: "SendWithFds (fst (EncodeFds (fst (Room thread0 kernel0 all_flat)))) kernel0_all_flat
      = (Inr six_handles, k2)"
    using all_flat_sent
    by (cases "SendWithFds (fst (EncodeFds (fst (Room thread0 kernel0 all_flat)))) kernel0_all_flat") simp
  obtain kc' where r: "ReceiveWithFds Arch64 Client_do_maxfds six_handles kernel0 = (Inr [3, 4, 5, 6], kc')"
    using six_handles_received
    by (cases "ReceiveWithFds Arch64 Client_do_maxfds six_handles kernel0") simp
  from rooms_handles_exceed_receive_limit [OF all_flat_units h s r] r
  have "length [3, 4, 5, 6 :: int] = min (length six_handles) 4
     \<and> valid_RoomsRequest all_flat
     \<and> (\<exists>resp. Room thread0 kernel0 all_flat = (RoomsResp resp, kernel0_all_flat)
          \<and> fst (EncodeFds (RoomsResp resp)) =
              [Cgroup resp, IPC resp, Mnt resp, Net resp, Time resp, UTS resp])
     \<and> length six_handles = 6
     \<and> map (fd_lookup kc') [3, 4, 5, 6] = map Some four_handles
     \<and> map (nstype_of kc') [3, 4, 5, 6] = map Some [NS_cgroup, NS_ipc, NS_mnt, NS_net]"
    by (simp add: flat_types_def six_handles_def four_handles_def)
  moreover
  obtain kd where r32: "ReceiveWithFds Arch32 Client_do_maxfds six_handles kernel0 = (Inr [3, 4, 5], kd)"
    using six_handles_received32
    by (cases "ReceiveWithFds Arch32 Client_do_maxfds six_handles kernel0") simp
  from rooms_handles_exceed_receive_limit [OF all_flat_units h s r32]
  have "map (nstype_of kd) [3, 4, 5] = map Some [NS_cgroup, NS_ipc, NS_mnt]"
    by (simp add: flat_types_def)
  ultimately show ?thesis using r r32 all_flat_units all_flat_sent by blast
qed

text \<open>
  The claim as stated fails where a pointer has 8 bytes: the client, which asks for room
  for three descriptors, receives all four descriptors of a message that carries four.
\<close>

theorem ReceiveWithFds_four_counterexample:
  "Client_do_maxfds = 3
   \<and> ReceiveWithFds Arch64 Client_do_maxfds four_handles kernel0 = (Inr [3, 4, 5, 6], kernel0_received)
   \<and> map (fd_lookup kernel0_received) [3, 4, 5, 6] = map Some four_handles"
  by (simp add: uds_defs four_handles_def kernel0_def kernel0_received_def kernel_defs)

section \<open>Subspace: the request for the PID namespace only\<close>

lemma extends_refl [simp]: "extends k k"
  by (simp add: extends_def)

lemma extends_trans: "extends k k1 \<Longrightarrow> extends k1 k2 \<Longrightarrow> extends k k2"
  by (auto simp: extends_def)

lemma extends_log_call [simp]: "extends k (log_call c k)"
  by (simp add: extends_def)

lemma extends_sys_close [simp]: "extends k (sys_close fd k)"
  by (simp add: extends_def)

lemma extends_sys_close': "extends k k1 \<Longrightarrow> extends k (sys_close fd k1)"
  by (auto simp: extends_def)

lemma extends_sys_open: "sys_open c obj k = (r, k') \<Longrightarrow> extends k k'"
  by (auto simp: sys_open_def extends_def log_call_def split: option.splits)

text \<open>The calls up to the start of the child open no namespace of another process.\<close>

lemma opens_none_refl [simp]: "opens_none k k"
  by (simp add: opens_none_def)

















text \<open>
  The code after the start of the child, for a request for the PID namespace only: when the
  namespace of the child cannot be opened, the descriptor closed first is 0, the value that
  \<open>userfd\<close> has had from its declaration.
\<close>

lemma Subspace_handles_pid_only:
  assumes "open_proc_ns pid NS_pid k = (Inl err, k1)"
  shows "Subspace_handles pid_only pid connfd k =
     (ErrorResponse (''failed to determine new PID namespace, reason: '' @ err),
      sys_close connfd (sys_close 0 k1))"
  using assms by (simp add: Subspace_handles_def pid_only_def flag_defs)


section \<open>goInAndOut: restoring the namespaces\<close>

lemma sys_setns_frame:
  "sys_setns fd want thr k = (r, thr', k') \<Longrightarrow>
     trace k' = trace k @ [Sys_setns fd] \<and> fdtab k' = fdtab k \<and> locked thr' = locked thr"
  by (auto simp: sys_setns_def log_call_def split: option.splits fobj.splits if_splits)






lemma setns_calls_append [simp]: "setns_calls (xs @ ys) = setns_calls xs @ setns_calls ys"
  by (induction xs rule: setns_calls.induct) auto






lemma sys_ioctl_nstype_frame: "sys_ioctl_nstype fd k = (r, k') \<Longrightarrow> fd_lookup k' = fd_lookup k"
  by (auto simp: sys_ioctl_nstype_def fun_eq_iff split: option.splits fobj.splits)






















section \<open>What Serve puts into the message\<close>

text \<open>
  Claim C5 supposes that a handle that travels out of band is zero in the message. In
  \<open>Serve\<close> the encoder runs before \<open>EncodeFds\<close>: whatever the encoder is, it is given
  the response with its handles still in the fields. For a response with the handles 4 and
  5, and the encoder that passes the value on as it is, the message holds 4 and 5, the
  descriptor list holds 4 and 5 too, and only the response that \<open>EncodeFds\<close> leaves
  behind, which is never encoded, has them zero.
\<close>

theorem Serve_respond_handles_in_band:
  "fst (Serve_respond encode resp k) = map_option (\<lambda>msg. (msg, fst (EncodeFds resp))) (encode resp)
   \<and> fst (Serve_respond Some (RoomsResp rooms_net_uts) k) = Some (RoomsResp rooms_net_uts, [4, 5])
   \<and> snd (EncodeFds (RoomsResp rooms_net_uts)) = RoomsResp no_rooms
   \<and> RoomsResp rooms_net_uts \<noteq> RoomsResp no_rooms"
  by (simp add: Serve_respond_def EncodeFds_def RoomsResponse_EncodeFds_def borrow_def
      rooms_net_uts_def no_rooms_def split: option.splits prod.splits)

section \<open>Room: the order of the units\<close>

lemma extends_sys_setns: "sys_setns fd want thr k = (r, thr', k') \<Longrightarrow> extends k k'"
  by (auto simp: extends_def dest: sys_setns_frame)

lemma extends_sys_unshare: "sys_unshare t thr k = (r, thr', k') \<Longrightarrow> extends k k'"
  by (auto simp: sys_unshare_def extends_def log_call_def split: option.splits)

lemma extends_sys_unshare_fs: "sys_unshare_fs k = (r, k') \<Longrightarrow> extends k k'"
  by (auto simp: sys_unshare_fs_def extends_def)

lemma extends_sys_mount_private: "sys_mount_private k = (r, k') \<Longrightarrow> extends k k'"
  by (auto simp: sys_mount_private_def extends_def)

lemma extends_newNamespace_create: "newNamespace_create t thr k = (r, thr', k') \<Longrightarrow> extends k k'"
  unfolding newNamespace_create_def open_thread_ns_def
  by (auto split: prod.splits option.splits sum.splits if_splits
      dest!: extends_sys_unshare extends_sys_unshare_fs extends_sys_mount_private extends_sys_open
      intro: extends_trans)

lemma sys_open_first_call:
  "sys_open c obj k = (r, k') \<Longrightarrow> trace k' = trace k @ [c]"
  by (auto simp: sys_open_def log_call_def split: option.splits)

text \<open>A unit begins by opening the thread's current namespace of its type.\<close>

lemma newNamespace_calls:
  assumes "newNamespace t worker k = (res, thr', k')"
  shows "\<exists>calls. trace k' = trace k @ Sys_open_thread_ns t # calls"
proof -
  obtain r0 k0 where o: "sys_open (Sys_open_thread_ns t) (NsHandle t (attached (LockOSThread worker) t)) k = (r0, k0)"
    by (cases "sys_open (Sys_open_thread_ns t) (NsHandle t (attached (LockOSThread worker) t)) k")
  note t0 = sys_open_first_call [OF o]
  have "extends k0 k'"
    using assms o unfolding newNamespace_def open_thread_ns_def Let_def
    by (auto split: prod.splits sum.splits
        dest!: extends_newNamespace_create extends_sys_setns intro: extends_trans extends_sys_close')
  then obtain calls where "trace k' = trace k0 @ calls" by (auto simp: extends_def)
  with t0 show ?thesis by simp
qed

lemma run_units_trace:
  "run_units worker ts k = (rs, k1) \<Longrightarrow>
     trace k1 = trace k @ concat (map snd (unit_segments worker ts k))
     \<and> map fst (unit_segments worker ts k) = ts
     \<and> (\<forall>(t, calls) \<in> set (unit_segments worker ts k). \<exists>rest. calls = Sys_open_thread_ns t # rest)"
proof (induction ts arbitrary: k rs)
  case Nil
  then show ?case by simp
next
  case (Cons t ts)
  obtain res thr1 ka where nn: "newNamespace t worker k = (res, thr1, ka)"
    by (cases "newNamespace t worker k")
  obtain rs1 where ru: "run_units worker ts ka = (rs1, k1)"
    using Cons.prems nn by (auto split: prod.splits)
  from newNamespace_calls [OF nn] obtain calls where c: "trace ka = trace k @ Sys_open_thread_ns t # calls"
    by blast
  then have seg: "drop (length (trace k)) (trace ka) = Sys_open_thread_ns t # calls" by simp
  from Cons.IH [OF ru] c seg nn show ?case by simp
qed

lemma net_uts_segments:
  "unit_segments thread0 (filter (requested net_uts) flat_types) kernel0 =
     [(NS_net, [Sys_open_thread_ns NS_net, Sys_unshare NS_net, Sys_open_thread_ns NS_net,
                Sys_setns 3, Sys_close 3]),
      (NS_uts, [Sys_open_thread_ns NS_uts, Sys_unshare NS_uts, Sys_open_thread_ns NS_uts,
                Sys_setns 3, Sys_close 3])]"
  unfolding net_uts_types
  by (simp add: kernel0_def thread0_def kernel_defs)

text \<open>
  Claim C7, as the code has it. The closure \<open>unshare\<close> waits for the result of its
  goroutine before it returns, so the units of a valid request run one after the other, in
  the order cgroup, ipc, mnt, net, time, uts of the requested types: the log of \<open>Room\<close>
  is the log before it, then the calls of each unit in that order, each unit beginning with
  the open of the thread's namespace of its type, then the closes of the failure path; and
  the response is made from the results of the units in that order.
\<close>

theorem Room_units_one_after_the_other:
  assumes "valid_RoomsRequest req"
  shows "\<exists>closes.
      trace (snd (Room worker k req)) =
        trace k @ concat (map snd (unit_segments worker (filter (requested req) flat_types) k))
          @ map Sys_close closes
      \<and> map fst (unit_segments worker (filter (requested req) flat_types) k)
           = filter (requested req) flat_types
      \<and> (\<forall>(t, calls) \<in> set (unit_segments worker (filter (requested req) flat_types) k).
            \<exists>rest. calls = Sys_open_thread_ns t # rest)
      \<and> fst (Room worker k req) =
          (let rs = fst (run_units worker (filter (requested req) flat_types) k)
           in if failures rs \<noteq> [] then ErrorResponse (join_comma (failures rs))
              else RoomsResp (foldl (\<lambda>r (t, fd). room_upd t fd r) no_rooms (successes rs)))"
proof -
  obtain rs k1 where ru: "run_units worker (filter (requested req) flat_types) k = (rs, k1)"
    by (cases "run_units worker (filter (requested req) flat_types) k")
  note tr = run_units_trace [OF ru]
  note room = Room_result [OF assms ru]
  show ?thesis
  proof (cases "failures rs = []")
    case True
    then have "Room worker k req = (RoomsResp (foldl (\<lambda>r (t, fd). room_upd t fd r) no_rooms (successes rs)), k1)"
      using room by simp
    then show ?thesis using tr ru True by (intro exI [of _ "[]"]) simp
  next
    case False
    define resp where "resp = foldl (\<lambda>r (t, fd). room_upd t fd r) no_rooms (successes rs)"
    have "Room worker k req = (ErrorResponse (join_comma (failures rs)), close_fields resp k1)"
      using room False by (simp add: resp_def)
    then show ?thesis using tr ru False
      by (intro exI [of _ "filter (\<lambda>fd. 0 < fd) (map (\<lambda>t. room_fd t resp) flat_types)"])
        (simp add: trace_close_fields)
  qed
qed

theorem Room_units_one_after_the_other_witness:
  "valid_RoomsRequest net_uts
   \<and> trace (snd (Room thread0 kernel0 net_uts)) =
       [Sys_open_thread_ns NS_net, Sys_unshare NS_net, Sys_open_thread_ns NS_net, Sys_setns 3, Sys_close 3,
        Sys_open_thread_ns NS_uts, Sys_unshare NS_uts, Sys_open_thread_ns NS_uts, Sys_setns 3, Sys_close 3]
   \<and> fst (Room thread0 kernel0 net_uts) = RoomsResp rooms_net_uts"
proof -
  have rs: "fst (run_units thread0 (filter (requested net_uts) flat_types) kernel0) =
      [(NS_net, Inr 4), (NS_uts, Inr 5)]"
    by (simp add: net_uts_units)
  from Room_units_one_after_the_other [OF net_uts_valid, of thread0 kernel0]
  obtain closes where
    t: "trace (snd (Room thread0 kernel0 net_uts)) =
        trace kernel0 @ concat (map snd (unit_segments thread0 (filter (requested net_uts) flat_types) kernel0))
          @ map Sys_close closes"
    and r: "fst (Room thread0 kernel0 net_uts) =
          (let rs = fst (run_units thread0 (filter (requested net_uts) flat_types) kernel0)
           in if failures rs \<noteq> [] then ErrorResponse (join_comma (failures rs))
              else RoomsResp (foldl (\<lambda>r (t, fd). room_upd t fd r) no_rooms (successes rs)))"
    by blast
  have r': "fst (Room thread0 kernel0 net_uts) = RoomsResp rooms_net_uts"
    unfolding r rs by (simp add: no_rooms_def rooms_net_uts_def)
  have "snd (Room thread0 kernel0 net_uts) = kernel0_after_units"
    using Room_result [OF net_uts_valid net_uts_units] by simp
  then have "trace (snd (Room thread0 kernel0 net_uts)) =
       [Sys_open_thread_ns NS_net, Sys_unshare NS_net, Sys_open_thread_ns NS_net, Sys_setns 3, Sys_close 3,
        Sys_open_thread_ns NS_uts, Sys_unshare NS_uts, Sys_open_thread_ns NS_uts, Sys_setns 3, Sys_close 3]"
    by (simp add: kernel0_after_units_def)
  with r' net_uts_valid show ?thesis by simp
qed

text \<open>
  The claim as stated, that the units run concurrently and none is ordered after the
  completion of another, fails: for the request of a network and a UTS namespace the first
  call of the UTS unit follows the last call of the network unit, and the UTS unit gets the
  descriptor 3 that the network unit has just closed.
\<close>

theorem Room_units_concurrent_counterexample:
  "unit_segments thread0 (filter (requested net_uts) flat_types) kernel0 =
     [(NS_net, [Sys_open_thread_ns NS_net, Sys_unshare NS_net, Sys_open_thread_ns NS_net,
                Sys_setns 3, Sys_close 3]),
      (NS_uts, [Sys_open_thread_ns NS_uts, Sys_unshare NS_uts, Sys_open_thread_ns NS_uts,
                Sys_setns 3, Sys_close 3])]
   \<and> trace (snd (Room thread0 kernel0 net_uts)) =
       [Sys_open_thread_ns NS_net, Sys_unshare NS_net, Sys_open_thread_ns NS_net, Sys_setns 3, Sys_close 3]
       @ [Sys_open_thread_ns NS_uts, Sys_unshare NS_uts, Sys_open_thread_ns NS_uts, Sys_setns 3, Sys_close 3]"
proof -
  have "snd (Room thread0 kernel0 net_uts) = kernel0_after_units"
    using Room_result [OF net_uts_valid net_uts_units] by simp
  then show ?thesis by (simp add: net_uts_segments kernel0_after_units_def)
qed

end
